theory Spec2Isabelle
  imports Complex_Main "HOL-Library.Char_ord" "HOL-Library.List_Lexorder"
begin

section \<open>Command model (shared/schema.ts)\<close>

text \<open>
  The interface \<open>McrCommand\<close>: a tag out of four string literals, a mandatory
  \<open>action\<close> and five optional fields. An optional field that is absent
  (\<open>undefined\<close>) is \<open>None\<close>.
\<close>

datatype CommandType = Keyboard | Mouse | Delay | Text

record McrCommand =
  cmd_type :: CommandType
  cmd_action :: string
  cmd_key :: "string option"
  cmd_delay :: "int option"
  cmd_x :: "int option"
  cmd_y :: "int option"
  cmd_text :: "string option"

text \<open>The string a tag is at run time, as template literals print it.\<close>

fun type_name :: "CommandType \<Rightarrow> string" where
  "type_name Keyboard = ''keyboard''"
| "type_name Mouse = ''mouse''"
| "type_name Delay = ''delay''"
| "type_name Text = ''text''"

text \<open>
  \<open>isCommandEqual = (cmd1, cmd2) => cmd1.key === cmd2.key && cmd1.action === cmd2.action\<close>.
  Strict equality on an optional string: two absent keys are equal, an absent key
  differs from every string.
\<close>

definition isCommandEqual :: "McrCommand \<Rightarrow> McrCommand \<Rightarrow> bool" where
  "isCommandEqual cmd1 cmd2 \<longleftrightarrow> cmd_key cmd1 = cmd_key cmd2 \<and> cmd_action cmd1 = cmd_action cmd2"

section \<open>Pattern service: positional similarity\<close>

text \<open>
  \<open>calculateSimilarity\<close>: the loop over \<open>i < len\<close> counts the positions where
  type, action and key are strictly equal; the result is the count over the longer
  length. The numbers are JavaScript doubles; the quotient of two small integers is
  modelled as the exact real quotient.
\<close>

definition same_at :: "McrCommand list \<Rightarrow> McrCommand list \<Rightarrow> nat \<Rightarrow> bool" where
  "same_at seq1 seq2 i \<longleftrightarrow>
     cmd_type (seq1 ! i) = cmd_type (seq2 ! i) \<and>
     cmd_action (seq1 ! i) = cmd_action (seq2 ! i) \<and>
     cmd_key (seq1 ! i) = cmd_key (seq2 ! i)"

definition count_matches :: "McrCommand list \<Rightarrow> McrCommand list \<Rightarrow> nat \<Rightarrow> nat" where
  "count_matches seq1 seq2 len =
     fold (\<lambda>i matches. if same_at seq1 seq2 i then matches + 1 else matches) [0..<len] 0"

definition calculateSimilarity :: "McrCommand list \<Rightarrow> McrCommand list \<Rightarrow> real" where
  "calculateSimilarity seq1 seq2 =
     (let len = min (length seq1) (length seq2) in
      if len = 0 then 0
      else real (count_matches seq1 seq2 len) / real (max (length seq1) (length seq2)))"

section \<open>Pattern service: frequent sequences\<close>

text \<open>
  \<open>Array.prototype.slice(start, end)\<close>: a negative index counts from the end, both
  indices are clamped into the array, and an empty range gives the empty array.
\<close>

definition js_slice :: "'a list \<Rightarrow> int \<Rightarrow> int \<Rightarrow> 'a list" where
  "js_slice xs start fin =
     (let n = int (length xs);
          s = (if start < 0 then max (n + start) 0 else min start n);
          e = (if fin < 0 then max (n + fin) 0 else min fin n)
      in take (nat (e - s)) (drop (nat s) xs))"

text \<open>\<open>Array.prototype.join(sep)\<close> on an array of strings.\<close>

fun join :: "string \<Rightarrow> string list \<Rightarrow> string" where
  "join sep [] = []"
| "join sep [s] = s"
| "join sep (s # t # ss) = s @ sep @ join sep (t # ss)"

text \<open>\<open>v || d\<close> on an optional string: absent and empty are both falsy.\<close>

definition or_else :: "string option \<Rightarrow> string \<Rightarrow> string" where
  "or_else v d = (case v of None \<Rightarrow> d | Some s \<Rightarrow> if s = [] then d else s)"

definition sequenceToKey :: "McrCommand list \<Rightarrow> string" where
  "sequenceToKey sequence =
     join ''|'' (map (\<lambda>cmd. type_name (cmd_type cmd) @ '':'' @ cmd_action cmd @ '':'' @
                          or_else (cmd_key cmd) []) sequence)"

text \<open>
  A JavaScript \<open>Map\<close> keeps its keys in insertion order: an association list with
  one entry per key. \<open>set\<close> overwrites the entry of a present key where it stands and
  appends a new key at the end; \<open>get\<close> and \<open>has\<close> are \<open>map_of\<close>.
\<close>

fun map_set :: "('k \<times> 'v) list \<Rightarrow> 'k \<Rightarrow> 'v \<Rightarrow> ('k \<times> 'v) list" where
  "map_set [] k v = [(k, v)]"
| "map_set ((k', v') # m) k v = (if k' = k then (k, v) # m else (k', v') # map_set m k v)"

record SequencePattern =
  sp_sequence :: "McrCommand list"
  sp_frequency :: nat
  sp_occurrences :: "(string \<times> int) list"

text \<open>
  The body of the innermost loop of \<open>findFrequentSequences\<close> for one window: the
  slice, its key, the entry created on first sight, then the increment and the push on
  the entry the map holds (mutated in place, so it keeps its position).
\<close>

definition record_window ::
  "string \<Rightarrow> McrCommand list \<Rightarrow> int \<Rightarrow> int \<Rightarrow> (string \<times> SequencePattern) list
     \<Rightarrow> (string \<times> SequencePattern) list" where
  "record_window fileId commands len i patterns =
     (let sequence = js_slice commands i (i + len);
          key = sequenceToKey sequence;
          patterns1 = (if map_of patterns key = None
                       then map_set patterns key
                              \<lparr>sp_sequence = sequence, sp_frequency = 0, sp_occurrences = []\<rparr>
                       else patterns)
      in case map_of patterns1 key of
           None \<Rightarrow> patterns1
         | Some pattern \<Rightarrow>
             map_set patterns1 key
               (pattern\<lparr>sp_frequency := sp_frequency pattern + 1,
                        sp_occurrences := sp_occurrences pattern @ [(fileId, i)]\<rparr>))"

text \<open>
  The three nested loops: every file, every length from \<open>minLength\<close> to
  \<open>min(commands.length, 15)\<close>, every offset from 0 to \<open>commands.length - len\<close>.
  The bounds are integers here (\<open>[a..b]\<close> is empty when \<open>b < a\<close>).
\<close>

definition collect_windows ::
  "(string \<times> McrCommand list) list \<Rightarrow> int \<Rightarrow> (string \<times> SequencePattern) list" where
  "collect_windows allCommands minLength =
     fold (\<lambda>(fileId, commands) patterns.
             fold (\<lambda>len patterns.
                     fold (record_window fileId commands len)
                          [0..int (length commands) - len] patterns)
                  [minLength..min (int (length commands)) 15] patterns)
          allCommands []"

text \<open>
  The values of the map in insertion order, filtered by frequency, sorted by
  descending frequency (\<open>sort\<close> is stable, as \<open>sort_key\<close> is) and cut at 100.
\<close>

definition findFrequentSequences ::
  "(string \<times> McrCommand list) list \<Rightarrow> int \<Rightarrow> int \<Rightarrow> SequencePattern list" where
  "findFrequentSequences allCommands minLength minFrequency =
     take 100
       (sort_key (\<lambda>p. - int (sp_frequency p))
          (filter (\<lambda>p. minFrequency \<le> int (sp_frequency p))
             (map snd (collect_windows allCommands minLength))))"

section \<open>Numbers: doubles and PostgreSQL reals\<close>

text \<open>
  A JavaScript number is an IEEE double, and the column \<open>patterns.confidence\<close> is a
  PostgreSQL \<open>real\<close>, an IEEE single. Both are modelled by the real number they
  denote, and a result is rounded to the nearest representable number, ties to the
  even significand. \<open>ilog2 x\<close> is the binary exponent of a positive \<open>x\<close>;
  \<open>fp_round p emin\<close> rounds to \<open>p\<close> significant bits with least exponent
  \<open>emin\<close> (below it the spacing stays that of the least exponent, as for
  subnormal numbers). Overflow to infinity is not modelled: the numbers rounded
  below are capped at 1 right after.
\<close>

function ilog2 :: "real \<Rightarrow> int" where
  "ilog2 x =
     (if x \<le> 0 then 0
      else if x < 1 then ilog2 (2 * x) - 1
      else if 2 \<le> x then ilog2 (x / 2) + 1
      else 0)"
  by pat_completeness auto
termination
proof (relation "measure (\<lambda>x. if x < 1 then nat \<lceil>1 / x\<rceil> else nat \<lfloor>x\<rfloor>)")
  show "wf (measure (\<lambda>x::real. if x < 1 then nat \<lceil>1 / x\<rceil> else nat \<lfloor>x\<rfloor>))" by simp
next
  fix x :: real assume pos: "\<not> x \<le> 0" and lt: "x < 1"
  from pos lt have y: "1 < 1 / x" by simp
  then have c: "2 \<le> \<lceil>1 / x\<rceil>" by linarith
  show "(2 * x, x) \<in> measure (\<lambda>x. if x < 1 then nat \<lceil>1 / x\<rceil> else nat \<lfloor>x\<rfloor>)"
  proof (cases "2 * x < 1")
    case True
    with pos have "2 \<le> 1 / x" by (simp add: field_simps)
    then have "1 / (2 * x) \<le> 1 / x - 1" by (simp add: field_simps)
    then have "\<lceil>1 / (2 * x)\<rceil> \<le> \<lceil>1 / x - 1\<rceil>" by (rule ceiling_mono)
    then have "\<lceil>1 / (2 * x)\<rceil> < \<lceil>1 / x\<rceil>" by simp
    with c True lt pos show ?thesis by simp
  next
    case False
    with lt have "\<lfloor>2 * x\<rfloor> = 1" by linarith
    with c False lt show ?thesis by simp
  qed
next
  fix x :: real assume "\<not> x \<le> 0" "\<not> x < 1" and two: "2 \<le> x"
  then have f: "2 \<le> \<lfloor>x\<rfloor>" by linarith
  from two have "x / 2 \<le> x - 1" by simp
  then have "\<lfloor>x / 2\<rfloor> \<le> \<lfloor>x - 1\<rfloor>" by (rule floor_mono)
  then have "\<lfloor>x / 2\<rfloor> < \<lfloor>x\<rfloor>" by simp
  with f two show "(x / 2, x) \<in> measure (\<lambda>x. if x < 1 then nat \<lceil>1 / x\<rceil> else nat \<lfloor>x\<rfloor>)"
    by simp
qed

declare ilog2.simps [simp del]

definition pow2 :: "int \<Rightarrow> real" where
  "pow2 k = (if 0 \<le> k then 2 ^ nat k else 1 / 2 ^ nat (- k))"

definition round_half_even :: "real \<Rightarrow> int" where
  "round_half_even m =
     (let f = \<lfloor>m\<rfloor>; r = m - of_int f
      in if r < 1 / 2 then f
         else if 1 / 2 < r then f + 1
         else if even f then f else f + 1)"

definition fp_round :: "nat \<Rightarrow> int \<Rightarrow> real \<Rightarrow> real" where
  "fp_round p emin x =
     (if x = 0 then 0
      else (let q = pow2 (max (ilog2 \<bar>x\<bar>) emin - int p + 1)
            in sgn x * of_int (round_half_even (\<bar>x\<bar> / q)) * q))"

definition to_double :: "real \<Rightarrow> real" where
  "to_double = fp_round 53 (- 1022)"

definition to_single :: "real \<Rightarrow> real" where
  "to_single = fp_round 24 (- 126)"

section \<open>Pattern service: mining and persistence\<close>

text \<open>
  A JavaScript number that the division of \<open>calculateConfidence\<close> can produce: a
  double, or \<open>NaN\<close> (from \<open>0 / 0\<close>). \<open>x / 0\<close> with \<open>x > 0\<close> is
  \<open>Infinity\<close>, and \<open>Math.min(Infinity, 1.0)\<close> is 1; \<open>Math.min(NaN, 1.0)\<close> is
  \<open>NaN\<close>. The quotient of the two integers is rounded to a double.
\<close>

datatype jsnum = NaN | Num real

definition calculateConfidence :: "nat \<Rightarrow> nat \<Rightarrow> jsnum" where
  "calculateConfidence frequency totalFiles =
     (if totalFiles * 2 = 0 then (if frequency = 0 then NaN else Num 1)
      else Num (min (to_double (real frequency / real (totalFiles * 2))) 1))"

text \<open>
  The delays of the delay commands whose \<open>delay\<close> is truthy (present and not 0),
  their mean and the square root of their population variance. The root is kept
  symbolic, so that the model stays executable: \<open>SqrtOf v\<close> stands for
  \<open>Math.sqrt(v)\<close>. Nothing below reads the metadata, and its sums and quotients
  are left exact.
\<close>

datatype jsroot = SqrtOf real

record PatternMetadata =
  averageDuration :: real
  variationStdDev :: jsroot
  timesUsed :: nat
  successRate :: real

definition calculatePatternMetadata :: "SequencePattern \<Rightarrow> PatternMetadata" where
  "calculatePatternMetadata pattern =
     (let delays = List.map_filter
            (\<lambda>cmd. if cmd_type cmd = Delay \<and> cmd_delay cmd \<noteq> None \<and> cmd_delay cmd \<noteq> Some 0
                    then cmd_delay cmd else None)
            (sp_sequence pattern);
          avgDuration = (if length delays > 0
                         then real_of_int (sum_list delays) / real (length delays) else 0);
          variance = (if length delays > 1
                      then sum_list (map (\<lambda>d. (real_of_int d - avgDuration) ^ 2) delays)
                             / real (length delays)
                      else 0)
      in \<lparr>averageDuration = avgDuration, variationStdDev = SqrtOf variance,
          timesUsed = 0, successRate = 1\<rparr>)"

text \<open>A natural number in decimal, as a template literal prints it.\<close>

fun string_of_nat :: "nat \<Rightarrow> string" where
  "string_of_nat n =
     (if n < 10 then [char_of (48 + n)]
      else string_of_nat (n div 10) @ [char_of (48 + n mod 10)])"

definition generatePatternName :: "McrCommand list \<Rightarrow> string" where
  "generatePatternName sequence =
     (let keyboardCommands =
            filter (\<lambda>c. cmd_type c = Keyboard \<and> or_else (cmd_key c) [] \<noteq> []) sequence
      in if length keyboardCommands > 0
         then ''Pattern: '' @ take 30 (join ''-'' (map (\<lambda>c. or_else (cmd_key c) []) keyboardCommands))
         else ''Pattern: '' @ string_of_nat (length sequence) @ '' commands'')"

text \<open>
  The values of one insert into \<open>patterns\<close>. \<open>Array.from(new Set(xs))\<close> keeps the
  first occurrence of every element.
\<close>

record PatternValues =
  p_name :: string
  p_commandSequence :: "McrCommand list"
  p_frequency :: nat
  p_confidence :: jsnum
  p_sourceFileIds :: "string list"
  p_metadata :: PatternMetadata

definition pattern_values :: "nat \<Rightarrow> SequencePattern \<Rightarrow> PatternValues" where
  "pattern_values totalFiles pattern =
     \<lparr>p_name = generatePatternName (sp_sequence pattern),
      p_commandSequence = sp_sequence pattern,
      p_frequency = sp_frequency pattern,
      p_confidence = calculateConfidence (sp_frequency pattern) totalFiles,
      p_sourceFileIds = rev (remdups (rev (map fst (sp_occurrences pattern)))),
      p_metadata = calculatePatternMetadata pattern\<rparr>"

text \<open>
  What the services read and write outside themselves: the file row of an id (its
  \<open>filename\<close>, if the row exists), the text of \<open>uploads/filename\<close>, the parser of
  \<open>./mcrProcessor\<close> (not part of these sources), the insert of one row of
  \<open>patterns\<close> (it returns the generated id and the time of the insert, or it is
  rejected), and the job queue of the mining route. Each may throw.
\<close>

datatype error = DbError | ReadError | ParseError | InsertError | QueueError

record Collaborators =
  findFirst :: "string \<Rightarrow> error + string option"
  readFile :: "string \<Rightarrow> error + string"
  parseMcrContent :: "string \<Rightarrow> error + McrCommand list"
  insertPattern :: "PatternValues \<Rightarrow> error + string \<times> nat"
  readReal :: "real \<Rightarrow> real"
  addPatternMiningJob :: "string list \<Rightarrow> int \<Rightarrow> error + string"

text \<open>\<open>Promise.all(fileIds.map(...))\<close>: the rows in order, or the first rejection.\<close>

fun lookupFiles :: "Collaborators \<Rightarrow> string list \<Rightarrow> error + (string \<times> string option) list" where
  "lookupFiles env [] = Inr []"
| "lookupFiles env (fileId # rest) =
     (case findFirst env fileId of
        Inl e \<Rightarrow> Inl e
      | Inr file \<Rightarrow>
          (case lookupFiles env rest of
             Inl e \<Rightarrow> Inl e
           | Inr files \<Rightarrow> Inr ((fileId, file) # files)))"

text \<open>The loop that fills \<open>allCommands\<close>: a missing row is skipped, a throw ends it.\<close>

fun readCommands ::
  "Collaborators \<Rightarrow> (string \<times> string option) list \<Rightarrow> error + (string \<times> McrCommand list) list" where
  "readCommands env [] = Inr []"
| "readCommands env ((fileId, None) # rest) = readCommands env rest"
| "readCommands env ((fileId, Some filename) # rest) =
     (case readFile env filename of
        Inl e \<Rightarrow> Inl e
      | Inr content \<Rightarrow>
          (case parseMcrContent env content of
             Inl e \<Rightarrow> Inl e
           | Inr commands \<Rightarrow>
               (case readCommands env rest of
                  Inl e \<Rightarrow> Inl e
                | Inr allCommands \<Rightarrow> Inr ((fileId, commands) # allCommands))))"

text \<open>
  A row of \<open>patterns\<close> as the database holds it after the insert: the values, the
  generated id, both timestamps and version 1. \<open>confidence\<close> is a \<open>real\<close>
  column, so the double is rounded to a single.
\<close>

record Pattern =
  pat_id :: string
  pat_name :: string
  pat_commandSequence :: "McrCommand list"
  pat_frequency :: nat
  pat_confidence :: jsnum
  pat_sourceFileIds :: "string list"
  pat_metadata :: PatternMetadata
  pat_createdAt :: nat
  pat_updatedAt :: nat
  pat_version :: nat

definition to_real_column :: "jsnum \<Rightarrow> jsnum" where
  "to_real_column v = (case v of NaN \<Rightarrow> NaN | Num c \<Rightarrow> Num (to_single c))"

definition saved_row :: "string \<times> nat \<Rightarrow> PatternValues \<Rightarrow> Pattern" where
  "saved_row stamp v =
     \<lparr>pat_id = fst stamp, pat_name = p_name v, pat_commandSequence = p_commandSequence v,
      pat_frequency = p_frequency v, pat_confidence = to_real_column (p_confidence v),
      pat_sourceFileIds = p_sourceFileIds v, pat_metadata = p_metadata v,
      pat_createdAt = snd stamp, pat_updatedAt = snd stamp, pat_version = 1\<rparr>"

text \<open>
  The row as \<open>returning()\<close> hands it to JavaScript. The database prints the single
  as a decimal and the driver parses that decimal to a double; how many digits are
  printed is the server's business, so the step is the collaborator \<open>readReal\<close>.
\<close>

definition returned_row :: "Collaborators \<Rightarrow> Pattern \<Rightarrow> Pattern" where
  "returned_row env row =
     row\<lparr>pat_confidence :=
           (case pat_confidence row of NaN \<Rightarrow> NaN | Num c \<Rightarrow> Num (readReal env c))\<rparr>"

text \<open>
  The loop over the discovered patterns: one insert each, in order. It returns the
  rows inserted and, when an insert was rejected, the error that ended the loop;
  the rows inserted before stay in the table.
\<close>

fun savePatterns ::
  "Collaborators \<Rightarrow> nat \<Rightarrow> SequencePattern list \<Rightarrow> Pattern list \<times> error option" where
  "savePatterns env totalFiles [] = ([], None)"
| "savePatterns env totalFiles (pattern # rest) =
     (case insertPattern env (pattern_values totalFiles pattern) of
        Inl e \<Rightarrow> ([], Some e)
      | Inr stamp \<Rightarrow>
          (case savePatterns env totalFiles rest of
             (rows, err) \<Rightarrow> (saved_row stamp (pattern_values totalFiles pattern) # rows, err)))"

text \<open>
  \<open>minePatterns\<close>: the rows of the files, their commands, the frequent sequences,
  and the inserts. The first component is what the call returns (the saved
  patterns, as read back from the database) or the error it throws; the second is
  the rows the call has added to the table, also when it throws.
\<close>

definition minePatterns ::
  "Collaborators \<Rightarrow> string list \<Rightarrow> int \<Rightarrow> int \<Rightarrow> (error + Pattern list) \<times> Pattern list" where
  "minePatterns env fileIds minSequenceLength minFrequency =
     (case lookupFiles env fileIds of
        Inl e \<Rightarrow> (Inl e, [])
      | Inr fileContents \<Rightarrow>
          (case readCommands env fileContents of
             Inl e \<Rightarrow> (Inl e, [])
           | Inr allCommands \<Rightarrow>
               (case savePatterns env (length fileIds)
                       (findFrequentSequences allCommands minSequenceLength minFrequency) of
                  (rows, None) \<Rightarrow> (Inr (map (returned_row env) rows), rows)
                | (rows, Some e) \<Rightarrow> (Inl e, rows))))"

section \<open>Mining route (server/routes-advanced.ts)\<close>

text \<open>
  The body of \<open>POST /api/patterns/mine\<close>: \<open>fileIds\<close> is \<open>None\<close> when it is
  missing, falsy or not an array; the two numbers have defaults 3 and 2. The answer
  is status 400 for fewer than two ids, status 500 when the queue or the mining
  throws, and otherwise status 200 with the job id and the saved patterns.
\<close>

record MineBody =
  body_fileIds :: "string list option"
  body_minSequenceLength :: "int option"
  body_minFrequency :: "int option"

datatype response = Status200 string "Pattern list" | Status400 | Status500

definition mineRoute :: "Collaborators \<Rightarrow> MineBody \<Rightarrow> response \<times> Pattern list" where
  "mineRoute env body =
     (let minSequenceLength = (case body_minSequenceLength body of None \<Rightarrow> 3 | Some l \<Rightarrow> l);
          minFrequency = (case body_minFrequency body of None \<Rightarrow> 2 | Some f \<Rightarrow> f)
      in case body_fileIds body of
           None \<Rightarrow> (Status400, [])
         | Some fileIds \<Rightarrow>
             if length fileIds < 2 then (Status400, [])
             else (case addPatternMiningJob env fileIds minFrequency of
                     Inl e \<Rightarrow> (Status500, [])
                   | Inr jobId \<Rightarrow>
                       (case minePatterns env fileIds minSequenceLength minFrequency of
                          (Inl e, rows) \<Rightarrow> (Status500, rows)
                        | (Inr patterns, rows) \<Rightarrow> (Status200 jobId patterns, rows))))"

section \<open>Pattern service: transition model\<close>

text \<open>
  The state of a command: \<open>`${cmd.type}:${cmd.key || cmd.action}`\<close>. The table is
  a \<open>Map\<close> of \<open>Map\<close>s of numbers, both in insertion order.
\<close>

definition state_key :: "McrCommand \<Rightarrow> string" where
  "state_key cmd = type_name (cmd_type cmd) @ '':'' @ or_else (cmd_key cmd) (cmd_action cmd)"

type_synonym TransitionTable = "(string \<times> (string \<times> int) list) list"

text \<open>
  One step of the inner loop of \<open>analyzeCommandTransitions\<close>, at an index
  \<open>i < commands.length - 1\<close>: the row of \<open>current\<close> is created when missing, and
  \<open>(nextMap.get(next) || 0) + 1\<close> is stored under \<open>next\<close>.
\<close>

definition add_transition :: "McrCommand list \<Rightarrow> nat \<Rightarrow> TransitionTable \<Rightarrow> TransitionTable" where
  "add_transition commands i transitions =
     (let current = state_key (commands ! i);
          next = state_key (commands ! (i + 1));
          transitions1 = (if map_of transitions current = None
                          then map_set transitions current [] else transitions)
      in case map_of transitions1 current of
           None \<Rightarrow> transitions1
         | Some nextMap \<Rightarrow>
             map_set transitions1 current
               (map_set nextMap next
                  ((case map_of nextMap next of
                      None \<Rightarrow> 0
                    | Some c \<Rightarrow> if c = 0 then 0 else c) + 1)))"

text \<open>
  The loop \<open>for (i = 0; i < commands.length - 1; i++)\<close>; for an empty list the
  bound is \<open>-1\<close> and the loop does not run, as \<open>[0..<0 - 1]\<close> is empty.
\<close>

definition count_transitions :: "McrCommand list \<Rightarrow> TransitionTable \<Rightarrow> TransitionTable" where
  "count_transitions commands transitions =
     fold (add_transition commands) [0..<length commands - 1] transitions"

text \<open>
  The loop over the file ids: row, text and parse of each file in turn, a missing
  row skipped, a throw ending the whole call.
\<close>

fun analyzeFiles :: "Collaborators \<Rightarrow> string list \<Rightarrow> TransitionTable \<Rightarrow> error + TransitionTable" where
  "analyzeFiles env [] transitions = Inr transitions"
| "analyzeFiles env (fileId # rest) transitions =
     (case findFirst env fileId of
        Inl e \<Rightarrow> Inl e
      | Inr None \<Rightarrow> analyzeFiles env rest transitions
      | Inr (Some filename) \<Rightarrow>
          (case readFile env filename of
             Inl e \<Rightarrow> Inl e
           | Inr content \<Rightarrow>
               (case parseMcrContent env content of
                  Inl e \<Rightarrow> Inl e
                | Inr commands \<Rightarrow>
                    analyzeFiles env rest (count_transitions commands transitions))))"

definition analyzeCommandTransitions :: "Collaborators \<Rightarrow> string list \<Rightarrow> error + TransitionTable" where
  "analyzeCommandTransitions env fileIds = analyzeFiles env fileIds []"

section \<open>Pattern service: prediction\<close>


text \<open>\<open>String.prototype.split(sep)\<close> for a one-character separator.\<close>

fun split_on :: "char \<Rightarrow> string \<Rightarrow> string list" where
  "split_on sep [] = [[]]"
| "split_on sep (c # cs) =
     (if c = sep then [] # split_on sep cs
      else (case split_on sep cs of
              [] \<Rightarrow> [[c]]
            | w # ws \<Rightarrow> (c # w) # ws))"




section \<open>Profile service\<close>

text \<open>
  A column in the values of an insert or of a partial update: left out
  (\<open>undefined\<close>), \<open>null\<close>, or a value.
\<close>

datatype 'a field = Omitted | Null | Value 'a

text \<open>
  A row of \<open>humanization_profiles\<close>: \<open>id\<close> is the primary key, \<open>name\<close> is
  unique, \<open>is_default\<close> is a nullable boolean whose default is false. The columns
  the service copies without reading them (description, settings, typing speed, mouse
  accuracy, the timestamps) are one payload.
\<close>

record 'p HumanizationProfile =
  prof_id :: string
  prof_name :: string
  prof_isDefault :: "bool option"
  prof_payload :: 'p

text \<open>
  The values of an insert, as the request body gives them. \<open>name\<close> is NOT NULL,
  and so is \<open>settings\<close> among the payload columns: the payload is a value when
  the body gives every NOT NULL column of it, and is left out or null otherwise.
\<close>

record 'p InsertHumanizationProfile =
  ins_name :: "string field"
  ins_isDefault :: "bool field"
  ins_payload :: "'p field"

text \<open>
  \<open>Partial<HumanizationProfile>\<close>: the name and the flag when given, and what the
  update does to the payload columns. (An update of the id itself is not modelled.)
\<close>

record 'p ProfileUpdates =
  upd_name :: "string option"
  upd_isDefault :: "bool field"
  upd_payload :: "'p \<Rightarrow> 'p"

datatype db_error = UniqueViolation | NotNullViolation

text \<open>\<open>if (profile.isDefault)\<close>: only \<open>true\<close> is truthy.\<close>

definition truthy :: "bool field \<Rightarrow> bool" where
  "truthy f \<longleftrightarrow> f = Value True"

text \<open>\<open>update ... set is_default = false where is_default = true\<close>.\<close>

definition unset_defaults :: "'p HumanizationProfile list \<Rightarrow> 'p HumanizationProfile list" where
  "unset_defaults rows =
     map (\<lambda>r. if prof_isDefault r = Some True then r\<lparr>prof_isDefault := Some False\<rparr> else r) rows"

definition inserted_flag :: "bool field \<Rightarrow> bool option" where
  "inserted_flag f = (case f of Omitted \<Rightarrow> Some False | Null \<Rightarrow> None | Value b \<Rightarrow> Some b)"

text \<open>
  \<open>createProfile\<close>: two statements with no transaction around them. The insert
  throws when the name or a NOT NULL column of the payload is missing, and when the
  generated id or the name is taken; the rows then stay as the first statement left
  them. \<open>newId\<close> is what \<open>gen_random_uuid()\<close> returns.
\<close>

definition createProfile ::
  "string \<Rightarrow> 'p InsertHumanizationProfile \<Rightarrow> 'p HumanizationProfile list
     \<Rightarrow> (db_error + 'p HumanizationProfile) \<times> 'p HumanizationProfile list" where
  "createProfile newId profile rows =
     (let rows1 = (if truthy (ins_isDefault profile) then unset_defaults rows else rows)
      in case (ins_name profile, ins_payload profile) of
           (Value name, Value payload) \<Rightarrow>
             (let created = \<lparr>prof_id = newId, prof_name = name,
                             prof_isDefault = inserted_flag (ins_isDefault profile),
                             prof_payload = payload\<rparr>
              in if newId \<in> set (map prof_id rows1) \<or> name \<in> set (map prof_name rows1)
                 then (Inl UniqueViolation, rows1)
                 else (Inr created, rows1 @ [created]))
         | _ \<Rightarrow> (Inl NotNullViolation, rows1))"

definition apply_updates :: "'p ProfileUpdates \<Rightarrow> 'p HumanizationProfile \<Rightarrow> 'p HumanizationProfile" where
  "apply_updates updates r =
     r\<lparr>prof_name := (case upd_name updates of None \<Rightarrow> prof_name r | Some n \<Rightarrow> n),
       prof_isDefault := (case upd_isDefault updates of
                            Omitted \<Rightarrow> prof_isDefault r | Null \<Rightarrow> None | Value b \<Rightarrow> Some b),
       prof_payload := upd_payload updates (prof_payload r)\<rparr>"

text \<open>
  \<open>updateProfile\<close>: the same first statement, then the update of the rows whose id
  is \<open>pid\<close>. It throws when a row is renamed to the name of another row; it returns
  the first updated row, or \<open>null\<close> when no row has the id.
\<close>

definition updateProfile ::
  "string \<Rightarrow> 'p ProfileUpdates \<Rightarrow> 'p HumanizationProfile list
     \<Rightarrow> (db_error + 'p HumanizationProfile option) \<times> 'p HumanizationProfile list" where
  "updateProfile pid updates rows =
     (let rows1 = (if truthy (upd_isDefault updates) then unset_defaults rows else rows);
          rows2 = map (\<lambda>r. if prof_id r = pid then apply_updates updates r else r) rows1;
          name_taken = (case upd_name updates of
                          None \<Rightarrow> False
                        | Some n \<Rightarrow> list_ex (\<lambda>r. prof_id r = pid) rows1 \<and>
                                    list_ex (\<lambda>r. prof_id r \<noteq> pid \<and> prof_name r = n) rows1)
      in if name_taken then (Inl UniqueViolation, rows1)
         else (Inr (find (\<lambda>r. prof_id r = pid) rows2), rows2))"

section \<open>Settings schema (shared/schema.ts)\<close>

text \<open>
  The values a request body can hold. A number is a real here: \<open>z.number()\<close>
  refuses \<open>NaN\<close>, and the bounds below refuse the infinities.
\<close>

datatype json = JNull | JBool bool | JNum real | JStr string | JArr "json list"

datatype zod_issue = invalid_type string | too_small string | too_big string

record HumanizationSettings =
  delayVariation :: real
  typingErrors :: real
  hesitationPauses :: real
  preserveStructure :: bool
  excludedKeys :: "string list option"
  removeMouseOnUpload :: bool
  timeExtensionFactor :: real
  minDelay :: real
  maxDelay :: real
  requiredImageId :: "string option"

text \<open>\<open>z.number().min(lo).max(hi).default(d)\<close> on the property \<open>name\<close>.\<close>

definition number_field ::
  "(string \<Rightarrow> json option) \<Rightarrow> string \<Rightarrow> real \<Rightarrow> real \<Rightarrow> real \<Rightarrow> zod_issue list + real" where
  "number_field input name lo hi d =
     (case input name of
        None \<Rightarrow> Inr d
      | Some (JNum v) \<Rightarrow>
          if v < lo then Inl [too_small name]
          else if hi < v then Inl [too_big name]
          else Inr v
      | Some _ \<Rightarrow> Inl [invalid_type name])"

text \<open>\<open>z.boolean().default(d)\<close>.\<close>

definition boolean_field :: "(string \<Rightarrow> json option) \<Rightarrow> string \<Rightarrow> bool \<Rightarrow> zod_issue list + bool" where
  "boolean_field input name d =
     (case input name of
        None \<Rightarrow> Inr d
      | Some (JBool b) \<Rightarrow> Inr b
      | Some _ \<Rightarrow> Inl [invalid_type name])"

text \<open>\<open>z.string().optional()\<close>.\<close>

definition string_field :: "(string \<Rightarrow> json option) \<Rightarrow> string \<Rightarrow> zod_issue list + string option" where
  "string_field input name =
     (case input name of
        None \<Rightarrow> Inr None
      | Some (JStr t) \<Rightarrow> Inr (Some t)
      | Some _ \<Rightarrow> Inl [invalid_type name])"

text \<open>\<open>z.array(z.string()).optional()\<close>.\<close>

fun strings_of :: "json list \<Rightarrow> string list option" where
  "strings_of [] = Some []"
| "strings_of (JStr t # vs) = (case strings_of vs of None \<Rightarrow> None | Some ts \<Rightarrow> Some (t # ts))"
| "strings_of (_ # vs) = None"

definition strings_field ::
  "(string \<Rightarrow> json option) \<Rightarrow> string \<Rightarrow> zod_issue list + string list option" where
  "strings_field input name =
     (case input name of
        None \<Rightarrow> Inr None
      | Some (JArr vs) \<Rightarrow>
          (case strings_of vs of None \<Rightarrow> Inl [invalid_type name] | Some ts \<Rightarrow> Inr (Some ts))
      | Some _ \<Rightarrow> Inl [invalid_type name])"

definition issues :: "zod_issue list + 'a \<Rightarrow> zod_issue list" where
  "issues r = (case r of Inl is \<Rightarrow> is | Inr _ \<Rightarrow> [])"

text \<open>
  \<open>humanizationSettingsSchema.safeParse(input)\<close> on an object: every property is
  checked, the issues are collected, and the settings are returned when there is no
  issue. Unknown properties are dropped.
\<close>

definition humanizationSettingsSchema ::
  "(string \<Rightarrow> json option) \<Rightarrow> zod_issue list + HumanizationSettings" where
  "humanizationSettingsSchema input =
     (let dv = number_field input ''delayVariation'' 1 100 10;
          te = number_field input ''typingErrors'' 0 10 1;
          hp = number_field input ''hesitationPauses'' 0 50 5;
          ps = boolean_field input ''preserveStructure'' True;
          ek = strings_field input ''excludedKeys'';
          rm = boolean_field input ''removeMouseOnUpload'' True;
          tf = number_field input ''timeExtensionFactor'' 1 5 1;
          mn = number_field input ''minDelay'' 0 100 10;
          mx = number_field input ''maxDelay'' 10 1000 100;
          ri = string_field input ''requiredImageId''
      in case (dv, te, hp, ps, ek, rm, tf, mn, mx, ri) of
           (Inr dv', Inr te', Inr hp', Inr ps', Inr ek', Inr rm', Inr tf', Inr mn', Inr mx', Inr ri') \<Rightarrow>
             Inr \<lparr>delayVariation = dv', typingErrors = te', hesitationPauses = hp',
                  preserveStructure = ps', excludedKeys = ek', removeMouseOnUpload = rm',
                  timeExtensionFactor = tf', minDelay = mn', maxDelay = mx',
                  requiredImageId = ri'\<rparr>
         | _ \<Rightarrow>
             Inl (issues dv @ issues te @ issues hp @ issues ps @ issues ek @ issues rm @
                  issues tf @ issues mn @ issues mx @ issues ri))"

section \<open>Cache service\<close>

text \<open>
  What can be thrown inside the service: a method call on \<open>null\<close>, a Redis
  command whose promise rejects, and a throw of \<open>JSON.parse\<close> or
  \<open>JSON.stringify\<close>.
\<close>

datatype cache_error = TypeError | CommandRejected | JsonError

text \<open>
  The Redis client and the JSON functions, as the service calls them; they are not
  part of these sources. \<open>'r\<close> is the state of the Redis server, \<open>'v\<close> the
  values that are cached.
\<close>

record ('r, 'v) Backend =
  redis_setex :: "'r \<Rightarrow> string \<Rightarrow> nat \<Rightarrow> string \<Rightarrow> cache_error + 'r"
  redis_get :: "'r \<Rightarrow> string \<Rightarrow> cache_error + string option"
  redis_incr :: "'r \<Rightarrow> string \<Rightarrow> cache_error + int \<times> 'r"
  redis_keys :: "'r \<Rightarrow> string \<Rightarrow> cache_error + string list"
  redis_del :: "'r \<Rightarrow> string list \<Rightarrow> cache_error + 'r"
  redis_flushdb :: "'r \<Rightarrow> cache_error + 'r"
  json_stringify :: "'v \<Rightarrow> cache_error + string"
  json_parse :: "string \<Rightarrow> cache_error + 'v"
  parse_int :: "string \<Rightarrow> int"

text \<open>
  The two fields of the service: \<open>redis\<close> is \<open>null\<close> after a failed connect,
  \<open>enabled\<close> is false until the client has connected and after an error.
\<close>

record 'r CacheService =
  redis :: "'r option"
  enabled :: bool

definition defaultTTL :: nat where
  "defaultTTL = 60 * 60 * 24"

text \<open>
  The body shared by the three writers: the guard, then \<open>setex\<close> of the
  serialized value inside \<open>try\<close>, with an empty \<open>catch\<close>.
\<close>

definition guarded_set ::
  "('r, 'v) Backend \<Rightarrow> 'r CacheService \<Rightarrow> string \<Rightarrow> 'v \<Rightarrow> cache_error + 'r CacheService" where
  "guarded_set B cs key v =
     (if \<not> enabled cs \<or> redis cs = None then Inr cs
      else case redis cs of
             None \<Rightarrow> Inr cs
           | Some r \<Rightarrow>
               (case json_stringify B v of
                  Inl e \<Rightarrow> Inr cs
                | Inr text \<Rightarrow>
                    (case redis_setex B r key defaultTTL text of
                       Inl e \<Rightarrow> Inr cs
                     | Inr r' \<Rightarrow> Inr (cs\<lparr>redis := Some r'\<rparr>))))"

text \<open>
  The body shared by the three readers: the guard, then \<open>get\<close> and
  \<open>cached ? JSON.parse(cached) : null\<close> inside \<open>try\<close>; the \<open>catch\<close> returns
  \<open>null\<close>. An empty string is falsy.
\<close>

definition guarded_get ::
  "('r, 'v) Backend \<Rightarrow> 'r CacheService \<Rightarrow> string \<Rightarrow> cache_error + 'v option" where
  "guarded_get B cs key =
     (if \<not> enabled cs \<or> redis cs = None then Inr None
      else case redis cs of
             None \<Rightarrow> Inr None
           | Some r \<Rightarrow>
               (case redis_get B r key of
                  Inl e \<Rightarrow> Inr None
                | Inr None \<Rightarrow> Inr None
                | Inr (Some cached) \<Rightarrow>
                    if cached = [] then Inr None
                    else (case json_parse B cached of
                            Inl e \<Rightarrow> Inr None
                          | Inr v \<Rightarrow> Inr (Some v))))"

definition cacheCommands ::
  "('r, 'v) Backend \<Rightarrow> 'r CacheService \<Rightarrow> string \<Rightarrow> 'v \<Rightarrow> cache_error + 'r CacheService" where
  "cacheCommands B cs fileHash commands = guarded_set B cs (''mcr:commands:'' @ fileHash) commands"

definition getCachedCommands ::
  "('r, 'v) Backend \<Rightarrow> 'r CacheService \<Rightarrow> string \<Rightarrow> cache_error + 'v option" where
  "getCachedCommands B cs fileHash = guarded_get B cs (''mcr:commands:'' @ fileHash)"

text \<open>The key of a set of files: the hashes sorted and joined by colons.\<close>

definition cachePatternAnalysis ::
  "('r, 'v) Backend \<Rightarrow> 'r CacheService \<Rightarrow> string list \<Rightarrow> 'v \<Rightarrow> cache_error + 'r CacheService" where
  "cachePatternAnalysis B cs fileHashes patterns =
     guarded_set B cs (''mcr:patterns:'' @ join '':'' (sort fileHashes)) patterns"

definition getCachedPatternAnalysis ::
  "('r, 'v) Backend \<Rightarrow> 'r CacheService \<Rightarrow> string list \<Rightarrow> cache_error + 'v option" where
  "getCachedPatternAnalysis B cs fileHashes =
     guarded_get B cs (''mcr:patterns:'' @ join '':'' (sort fileHashes))"

definition cacheImageAnalysis ::
  "('r, 'v) Backend \<Rightarrow> 'r CacheService \<Rightarrow> string \<Rightarrow> 'v \<Rightarrow> cache_error + 'r CacheService" where
  "cacheImageAnalysis B cs imageId analysis = guarded_set B cs (''image:analysis:'' @ imageId) analysis"

definition getCachedImageAnalysis ::
  "('r, 'v) Backend \<Rightarrow> 'r CacheService \<Rightarrow> string \<Rightarrow> cache_error + 'v option" where
  "getCachedImageAnalysis B cs imageId = guarded_get B cs (''image:analysis:'' @ imageId)"

text \<open>The usage counters: the new count and the new state, or 0 and the old state.\<close>

definition incrementPatternUsage ::
  "('r, 'v) Backend \<Rightarrow> 'r CacheService \<Rightarrow> string \<Rightarrow> cache_error + int \<times> 'r CacheService" where
  "incrementPatternUsage B cs patternId =
     (if \<not> enabled cs \<or> redis cs = None then Inr (0, cs)
      else case redis cs of
             None \<Rightarrow> Inr (0, cs)
           | Some r \<Rightarrow>
               (case redis_incr B r (''pattern:usage:'' @ patternId) of
                  Inl e \<Rightarrow> Inr (0, cs)
                | Inr (n, r') \<Rightarrow> Inr (n, cs\<lparr>redis := Some r'\<rparr>)))"

definition getPatternUsageCount ::
  "('r, 'v) Backend \<Rightarrow> 'r CacheService \<Rightarrow> string \<Rightarrow> cache_error + int" where
  "getPatternUsageCount B cs patternId =
     (if \<not> enabled cs \<or> redis cs = None then Inr 0
      else case redis cs of
             None \<Rightarrow> Inr 0
           | Some r \<Rightarrow>
               (case redis_get B r (''pattern:usage:'' @ patternId) of
                  Inl e \<Rightarrow> Inr 0
                | Inr None \<Rightarrow> Inr 0
                | Inr (Some count) \<Rightarrow> if count = [] then Inr 0 else Inr (parse_int B count)))"

text \<open>
  \<open>invalidateFileCache\<close> and \<open>clearAllCache\<close> have neither the guard nor a
  \<open>try\<close>: \<open>this.redis.keys(...)\<close> and \<open>this.redis.flushdb()\<close> throw a
  \<open>TypeError\<close> when \<open>this.redis\<close> is \<open>null\<close>, and a rejected command
  rejects the call.
\<close>

definition invalidateFileCache ::
  "('r, 'v) Backend \<Rightarrow> 'r CacheService \<Rightarrow> string \<Rightarrow> cache_error + 'r CacheService" where
  "invalidateFileCache B cs fileHash =
     (case redis cs of
        None \<Rightarrow> Inl TypeError
      | Some r \<Rightarrow>
          (case redis_keys B r (''mcr:*:'' @ fileHash @ ''*'') of
             Inl e \<Rightarrow> Inl e
           | Inr ks \<Rightarrow>
               if length ks > 0
               then (case redis_del B r ks of
                       Inl e \<Rightarrow> Inl e
                     | Inr r' \<Rightarrow> Inr (cs\<lparr>redis := Some r'\<rparr>))
               else Inr cs))"

definition clearAllCache ::
  "('r, 'v) Backend \<Rightarrow> 'r CacheService \<Rightarrow> cache_error + 'r CacheService" where
  "clearAllCache B cs =
     (case redis cs of
        None \<Rightarrow> Inl TypeError
      | Some r \<Rightarrow>
          (case redis_flushdb B r of
             Inl e \<Rightarrow> Inl e
           | Inr r' \<Rightarrow> Inr (cs\<lparr>redis := Some r'\<rparr>)))"

text \<open>
  The backend is unavailable for a service: the connect failed (\<open>redis\<close> is
  \<open>null\<close>), caching is disabled, or every command the client sends is rejected.
\<close>

definition unavailable :: "('r, 'v) Backend \<Rightarrow> 'r CacheService \<Rightarrow> bool" where
  "unavailable B cs \<longleftrightarrow>
     (case redis cs of
        None \<Rightarrow> True
      | Some r \<Rightarrow>
          \<not> enabled cs \<or>
          ((\<forall>k t v. redis_setex B r k t v = Inl CommandRejected) \<and>
           (\<forall>k. redis_get B r k = Inl CommandRejected) \<and>
           (\<forall>k. redis_incr B r k = Inl CommandRejected)))"

section \<open>Reference notions for the mining properties\<close>

text \<open>
  The windows the loops visit, in the order they visit them: for one command list,
  and for all files.
\<close>

definition windows_of :: "McrCommand list \<Rightarrow> int \<Rightarrow> McrCommand list list" where
  "windows_of commands minLength =
     concat (map (\<lambda>len. map (\<lambda>i. js_slice commands i (i + len))
                              [0..int (length commands) - len])
                 [minLength..min (int (length commands)) 15])"

definition all_windows :: "(string \<times> McrCommand list) list \<Rightarrow> int \<Rightarrow> McrCommand list list" where
  "all_windows allCommands minLength =
     concat (map (\<lambda>(fileId, commands). windows_of commands minLength) allCommands)"

text \<open>The frequency the map holds for a key (0 for a key it does not hold).\<close>

definition window_count :: "(string \<times> SequencePattern) list \<Rightarrow> string \<Rightarrow> nat" where
  "window_count patterns key =
     (case map_of patterns key of None \<Rightarrow> 0 | Some p \<Rightarrow> sp_frequency p)"

text \<open>
  The invariant of the map: one entry per key, every entry filed under the key of its
  own sequence, counted at least once, with one recorded occurrence per count.
\<close>

definition well_keyed :: "(string \<times> SequencePattern) list \<Rightarrow> bool" where
  "well_keyed patterns \<longleftrightarrow>
     distinct (map fst patterns) \<and>
     list_all (\<lambda>(k, p). k = sequenceToKey (sp_sequence p) \<and> 0 < sp_frequency p \<and>
                         sp_frequency p = length (sp_occurrences p)) patterns"

text \<open>The loops of \<open>collect_windows\<close>, started from any map.\<close>

definition collect_from ::
  "(string \<times> McrCommand list) list \<Rightarrow> int \<Rightarrow> (string \<times> SequencePattern) list
     \<Rightarrow> (string \<times> SequencePattern) list" where
  "collect_from allCommands minLength m =
     fold (\<lambda>(fileId, commands) patterns.
             fold (\<lambda>len patterns.
                     fold (record_window fileId commands len)
                          [0..int (length commands) - len] patterns)
                  [minLength..min (int (length commands)) 15] patterns)
          allCommands m"

section \<open>Reference notions for the transition properties\<close>

text \<open>
  The command lists \<open>analyzeCommandTransitions\<close> reads, file by file, or the throw
  that ends the reading.
\<close>

fun loadSequences :: "Collaborators \<Rightarrow> string list \<Rightarrow> error + McrCommand list list" where
  "loadSequences env [] = Inr []"
| "loadSequences env (fileId # rest) =
     (case findFirst env fileId of
        Inl e \<Rightarrow> Inl e
      | Inr None \<Rightarrow> loadSequences env rest
      | Inr (Some filename) \<Rightarrow>
          (case readFile env filename of
             Inl e \<Rightarrow> Inl e
           | Inr content \<Rightarrow>
               (case parseMcrContent env content of
                  Inl e \<Rightarrow> Inl e
                | Inr commands \<Rightarrow>
                    (case loadSequences env rest of
                       Inl e \<Rightarrow> Inl e
                     | Inr seqs \<Rightarrow> Inr (commands # seqs)))))"

text \<open>The adjacent pairs of states inside one command list.\<close>

definition adjacent_states :: "McrCommand list \<Rightarrow> (string \<times> string) list" where
  "adjacent_states commands = zip (map state_key commands) (tl (map state_key commands))"

text \<open>The count a table holds for an edge (0 for an edge it does not hold).\<close>

definition edge_count :: "TransitionTable \<Rightarrow> string \<Rightarrow> string \<Rightarrow> int" where
  "edge_count transitions a b =
     (case map_of transitions a of
        None \<Rightarrow> 0
      | Some nextMap \<Rightarrow> (case map_of nextMap b of None \<Rightarrow> 0 | Some c \<Rightarrow> c))"

text \<open>Every count a table stores is positive; every row has one entry per key.\<close>

definition positive_counts :: "TransitionTable \<Rightarrow> bool" where
  "positive_counts transitions \<longleftrightarrow>
     list_all (\<lambda>(a, nextMap). list_all (\<lambda>(b, c). 0 < c) nextMap) transitions"



text \<open>
  A state key of the form \<open>type:name\<close> with exactly one colon, and a non-empty
  name when the type is \<open>keyboard\<close>.
\<close>

definition plain_state :: "string \<Rightarrow> bool" where
  "plain_state b =
     (case split_on CHR '':'' b of
        [t, name] \<Rightarrow> t \<noteq> ''keyboard'' \<or> name \<noteq> []
      | _ \<Rightarrow> False)"

text \<open>A table is a \<open>Map\<close> of \<open>Map\<close>s: no key stands twice, in the table or in a row.\<close>

definition unique_keys :: "TransitionTable \<Rightarrow> bool" where
  "unique_keys transitions \<longleftrightarrow>
     distinct (map fst transitions) \<and>
     list_all (\<lambda>(a, nextMap). distinct (map fst nextMap)) transitions"


section \<open>Example recordings\<close>

definition keydown :: "string \<Rightarrow> McrCommand" where
  "keydown k = \<lparr>cmd_type = Keyboard, cmd_action = ''keydown'', cmd_key = Some k,
                cmd_delay = None, cmd_x = None, cmd_y = None, cmd_text = None\<rparr>"

definition wait :: "int \<Rightarrow> McrCommand" where
  "wait d = \<lparr>cmd_type = Delay, cmd_action = ''wait'', cmd_key = None,
             cmd_delay = Some d, cmd_x = None, cmd_y = None, cmd_text = None\<rparr>"

text \<open>The two recordings of the mining example: the delays differ, the keys agree.\<close>

definition two_recordings :: "(string \<times> McrCommand list) list" where
  "two_recordings =
     [(''F1'', [keydown ''a'', wait 50, keydown ''b'']),
      (''F2'', [keydown ''a'', wait 55, keydown ''b'', keydown ''c''])]"

text \<open>
  Collaborators for one stored file, whose text is four times the same key, and for
  the two recordings above. The parser here reads one command per character.
\<close>

text \<open>
  The read-back of the examples, for a server that prints the shortest decimal that
  reads back as the stored single: one half and one are printed exactly, and the
  single nearest to one third is printed as \<open>0.33333334\<close>, which the driver
  parses to the nearest double.
\<close>

definition shortest_decimal :: "real \<Rightarrow> real" where
  "shortest_decimal c =
     (if c = 11184811 / 33554432 then to_double (33333334 / 100000000) else c)"

definition repeat_env :: Collaborators where
  "repeat_env =
     \<lparr>findFirst = (\<lambda>fileId. Inr (if fileId = ''F1'' then Some ''f1.mcr'' else None)),
      readFile = (\<lambda>filename. if filename = ''f1.mcr'' then Inr ''aaaa'' else Inl ReadError),
      parseMcrContent = (\<lambda>content. Inr (map (\<lambda>c. keydown [c]) content)),
      insertPattern = (\<lambda>v. Inr (''id of '' @ p_name v, 0)),
      readReal = shortest_decimal,
      addPatternMiningJob = (\<lambda>fileIds minFrequency. Inr ''job 1'')\<rparr>"

definition two_env :: Collaborators where
  "two_env =
     \<lparr>findFirst = (\<lambda>fileId. Inr (if fileId = ''F1'' then Some ''f1.mcr''
                                   else if fileId = ''F2'' then Some ''f2.mcr'' else None)),
      readFile = (\<lambda>filename. if filename = ''f1.mcr'' then Inr ''a5b''
                              else if filename = ''f2.mcr'' then Inr ''a6bc'' else Inl ReadError),
      parseMcrContent = (\<lambda>content. Inr (map (\<lambda>c. if c = CHR ''5'' then wait 50 else if c = CHR ''6'' then wait 55 else keydown [c]) content)),
      insertPattern = (\<lambda>v. Inr (''id of '' @ p_name v, 0)),
      readReal = shortest_decimal,
      addPatternMiningJob = (\<lambda>fileIds minFrequency. Inr ''job 1'')\<rparr>"

text \<open>A request with two file ids, of which only the first has a stored row.\<close>

definition one_stored_body :: MineBody where
  "one_stored_body =
     \<lparr>body_fileIds = Some [''F1'', ''F2''], body_minSequenceLength = Some 3,
      body_minFrequency = Some 2\<rparr>"






section \<open>Reference notions and examples for the profile store\<close>

text \<open>The number of rows whose \<open>is_default\<close> is true.\<close>

definition default_count :: "'p HumanizationProfile list \<Rightarrow> nat" where
  "default_count rows = length (filter (\<lambda>r. prof_isDefault r = Some True) rows)"

text \<open>
  A store with one default profile, and the update that asks for a new default.
\<close>

definition one_default :: "unit HumanizationProfile list" where
  "one_default =
     [\<lparr>prof_id = ''p1'', prof_name = ''Average User'', prof_isDefault = Some True, prof_payload = ()\<rparr>,
      \<lparr>prof_id = ''p2'', prof_name = ''Expert User'', prof_isDefault = Some False, prof_payload = ()\<rparr>]"

definition make_default :: "unit ProfileUpdates" where
  "make_default = \<lparr>upd_name = None, upd_isDefault = Value True, upd_payload = (\<lambda>p. p)\<rparr>"

section \<open>Reference notions and examples for the settings schema\<close>

text \<open>The number the input gives for a property, or the default when it gives none.\<close>

definition given :: "(string \<Rightarrow> json option) \<Rightarrow> string \<Rightarrow> real \<Rightarrow> real" where
  "given input name d = (case input name of Some (JNum v) \<Rightarrow> v | _ \<Rightarrow> d)"

text \<open>
  Two request bodies: one whose minimum delay exceeds its maximum delay, and one
  that sets two percentages.
\<close>

definition inverted_delays :: "string \<Rightarrow> json option" where
  "inverted_delays = Map.empty(''minDelay'' \<mapsto> JNum 50, ''maxDelay'' \<mapsto> JNum 20)"

definition slow_typist :: "string \<Rightarrow> json option" where
  "slow_typist = Map.empty(''delayVariation'' \<mapsto> JNum 50, ''typingErrors'' \<mapsto> JNum 8)"

section \<open>Canonical equality\<close>

lemma isCommandEqual_iff:
  "isCommandEqual cmd1 cmd2 \<longleftrightarrow> cmd_key cmd1 = cmd_key cmd2 \<and> cmd_action cmd1 = cmd_action cmd2"
  by (simp add: isCommandEqual_def)

lemma isCommandEqual_ignores_payload:
  "isCommandEqual (cmd1\<lparr>cmd_delay := d, cmd_x := x, cmd_y := y, cmd_text := t\<rparr>) cmd2 = isCommandEqual cmd1 cmd2"
  "isCommandEqual cmd1 (cmd2\<lparr>cmd_delay := d, cmd_x := x, cmd_y := y, cmd_text := t\<rparr>) = isCommandEqual cmd1 cmd2"
  by (simp_all add: isCommandEqual_def)

text \<open>
  Claim C1. Canonical equality is meant to hold exactly when type, action and key
  agree. \<open>isCommandEqual\<close> compares key and action only: a keyboard command and a
  text command with the same action and key are reported equal although their types
  differ. (\<open>calculateSimilarity\<close> and \<open>sequenceToKey\<close> do compare the type.)
\<close>

theorem isCommandEqual_ignores_type:
  "isCommandEqual
     \<lparr>cmd_type = Keyboard, cmd_action = ''down'', cmd_key = Some ''a'',
      cmd_delay = None, cmd_x = None, cmd_y = None, cmd_text = None\<rparr>
     \<lparr>cmd_type = Text, cmd_action = ''down'', cmd_key = Some ''a'',
      cmd_delay = None, cmd_x = None, cmd_y = None, cmd_text = None\<rparr>
   \<and> Keyboard \<noteq> Text"
  by (simp add: isCommandEqual_def)

section \<open>Similarity: symmetry and range\<close>

lemma same_at_commute: "same_at seq1 seq2 i = same_at seq2 seq1 i"
  by (auto simp: same_at_def)

lemma count_matches_commute: "count_matches seq1 seq2 len = count_matches seq2 seq1 len"
  by (simp add: count_matches_def same_at_commute)

lemma fold_count_le:
  "fold (\<lambda>i m. if P i then m + 1 else m) is (acc::nat) \<le> acc + length is"
proof (induction "is" arbitrary: acc)
  case Nil
  show ?case by simp
next
  case (Cons i "is")
  have "fold (\<lambda>i m. if P i then m + 1 else m) is (if P i then acc + 1 else acc)
          \<le> (if P i then acc + 1 else acc) + length is"
    by (rule Cons.IH)
  then show ?case by (simp split: if_splits)
qed

lemma count_matches_le: "count_matches seq1 seq2 len \<le> len"
  using fold_count_le [of "same_at seq1 seq2" "[0..<len]" 0]
  by (simp add: count_matches_def)

lemma count_matches_0: "count_matches seq1 seq2 0 = 0"
  by (simp add: count_matches_def)

lemma calculateSimilarity_commute: "calculateSimilarity seq1 seq2 = calculateSimilarity seq2 seq1"
  by (simp add: calculateSimilarity_def Let_def min.commute max.commute count_matches_commute
        count_matches_0)

lemma calculateSimilarity_range: "0 \<le> calculateSimilarity seq1 seq2 \<and> calculateSimilarity seq1 seq2 \<le> 1"
proof (cases "min (length seq1) (length seq2) = 0")
  case True
  then show ?thesis by (simp add: calculateSimilarity_def)
next
  case False
  define m where "m = count_matches seq1 seq2 (min (length seq1) (length seq2))"
  define d where "d = max (length seq1) (length seq2)"
  have "m \<le> min (length seq1) (length seq2)" unfolding m_def by (rule count_matches_le)
  then have md: "m \<le> d" unfolding d_def by arith
  from False have d: "0 < d" unfolding d_def by arith
  from False have "calculateSimilarity seq1 seq2 = real m / real d"
    unfolding calculateSimilarity_def Let_def m_def d_def by (simp only: if_False)
  with md d show ?thesis by simp
qed

lemma count_matches_take:
  "n \<le> min (length seq1) (length seq2) \<Longrightarrow>
   count_matches seq1 seq2 n =
     length (filter (\<lambda>(a, b). cmd_type a = cmd_type b \<and> cmd_action a = cmd_action b \<and>
                              cmd_key a = cmd_key b) (take n (zip seq1 seq2)))"
proof (induction n)
  case 0
  show ?case by (simp add: count_matches_0)
next
  case (Suc n)
  then have n: "n < length (zip seq1 seq2)" and le: "n \<le> min (length seq1) (length seq2)" by simp_all
  have step: "count_matches seq1 seq2 (Suc n) =
                (if same_at seq1 seq2 n then count_matches seq1 seq2 n + 1 else count_matches seq1 seq2 n)"
    by (simp add: count_matches_def)
  from n have z: "zip seq1 seq2 ! n = (seq1 ! n, seq2 ! n)" by simp
  show ?case
    unfolding step Suc.IH [OF le] take_Suc_conv_app_nth [OF n] z
    by (simp add: same_at_def)
qed

lemma count_matches_zip:
  "count_matches seq1 seq2 (min (length seq1) (length seq2)) =
     length (filter (\<lambda>(a, b). cmd_type a = cmd_type b \<and> cmd_action a = cmd_action b \<and>
                              cmd_key a = cmd_key b) (zip seq1 seq2))"
  using count_matches_take [of "min (length seq1) (length seq2)" seq1 seq2] by simp

text \<open>
  Claim C10. The positional similarity of two command sequences is symmetric, lies
  between 0 and 1, and is 0 when either sequence is empty.
\<close>

theorem calculateSimilarity_symmetric_bounded:
  "calculateSimilarity seq1 seq2 = calculateSimilarity seq2 seq1 \<and>
   0 \<le> calculateSimilarity seq1 seq2 \<and> calculateSimilarity seq1 seq2 \<le> 1 \<and>
   calculateSimilarity [] seq2 = 0 \<and> calculateSimilarity seq1 [] = 0"
  using calculateSimilarity_commute [of seq1 seq2] calculateSimilarity_range [of seq1 seq2]
  by (simp add: calculateSimilarity_def)

section \<open>Insertion-ordered maps\<close>

lemma map_of_map_set: "map_of (map_set m k v) = (map_of m)(k \<mapsto> v)"
  by (induction m) (auto simp: fun_eq_iff)

lemma keys_map_set:
  "map fst (map_set m k v) = (if k \<in> set (map fst m) then map fst m else map fst m @ [k])"
  by (induction m) (auto split: if_splits)

lemma distinct_map_set: "distinct (map fst m) \<Longrightarrow> distinct (map fst (map_set m k v))"
  by (simp add: keys_map_set)

lemma set_map_set: "set (map_set m k v) \<subseteq> insert (k, v) (set m)"
  by (induction m) (auto split: if_splits)

lemma list_all_map_set:
  "list_all P m \<Longrightarrow> P (k, v) \<Longrightarrow> list_all P (map_set m k v)"
  using set_map_set [of m k v] by (auto simp: list_all_iff)

lemma map_set_twice: "map_set (map_set m k v) k v' = map_set m k v'"
  by (induction m) auto

section \<open>Frequent sequences: counts, threshold, order and cut\<close>

lemma record_window_count:
  "window_count (record_window fileId commands len i m) k =
     window_count m k + (if sequenceToKey (js_slice commands i (i + len)) = k then 1 else 0)"
  by (auto simp: window_count_def record_window_def Let_def map_of_map_set split: option.splits)

lemma record_window_well_keyed:
  assumes "well_keyed m"
  shows "well_keyed (record_window fileId commands len i m)"
proof -
  let ?s = "js_slice commands i (i + len)"
  let ?k = "sequenceToKey ?s"
  let ?P = "\<lambda>(k, p). k = sequenceToKey (sp_sequence p) \<and> 0 < sp_frequency p \<and>
                      sp_frequency p = length (sp_occurrences p)"
  from assms have d: "distinct (map fst m)" and a: "list_all ?P m"
    by (simp_all add: well_keyed_def)
  show ?thesis
  proof (cases "map_of m ?k")
    case None
    let ?v = "\<lparr>sp_sequence = ?s, sp_frequency = Suc 0, sp_occurrences = [(fileId, i)]\<rparr>"
    from None have "record_window fileId commands len i m = map_set m ?k ?v"
      by (simp add: record_window_def Let_def map_of_map_set map_set_twice)
    moreover have "?P (?k, ?v)" by simp
    ultimately show ?thesis
      using d a by (simp add: well_keyed_def distinct_map_set list_all_map_set)
  next
    case (Some p)
    let ?v = "p\<lparr>sp_frequency := sp_frequency p + 1,
                 sp_occurrences := sp_occurrences p @ [(fileId, i)]\<rparr>"
    from Some have "record_window fileId commands len i m = map_set m ?k ?v"
      by (simp add: record_window_def Let_def)
    moreover from Some have "(?k, p) \<in> set m" by (rule map_of_SomeD)
    with a have "?P (?k, p)" by (auto simp: list_all_iff)
    then have "?P (?k, ?v)" by simp
    ultimately show ?thesis
      using d a by (simp add: well_keyed_def distinct_map_set list_all_map_set)
  qed
qed

lemma offsets_count:
  "window_count (fold (record_window fileId commands len) is m) k =
     window_count m k + count_list (map (\<lambda>i. sequenceToKey (js_slice commands i (i + len))) is) k"
  by (induction "is" arbitrary: m) (simp_all add: record_window_count)

lemma offsets_well_keyed:
  "well_keyed m \<Longrightarrow> well_keyed (fold (record_window fileId commands len) is m)"
  by (induction "is" arbitrary: m) (simp_all add: record_window_well_keyed)

lemma count_list_append: "count_list (xs @ ys) k = count_list xs k + count_list ys k"
  by (induction xs) simp_all

lemma lengths_count:
  "window_count
     (fold (\<lambda>len patterns. fold (record_window fileId commands len) (offs len) patterns) lens m) k =
   window_count m k +
     count_list (map sequenceToKey
       (concat (map (\<lambda>len. map (\<lambda>i. js_slice commands i (i + len)) (offs len)) lens))) k"
  by (induction lens arbitrary: m) (simp_all add: offsets_count count_list_append o_def)

lemma lengths_well_keyed:
  "well_keyed m \<Longrightarrow>
   well_keyed (fold (\<lambda>len patterns. fold (record_window fileId commands len) (offs len) patterns) lens m)"
  by (induction lens arbitrary: m) (simp_all add: offsets_well_keyed)

lemma files_count:
  "window_count (collect_from allCommands minLength m) k =
     window_count m k + count_list (map sequenceToKey (all_windows allCommands minLength)) k"
proof (induction allCommands arbitrary: m)
  case Nil
  show ?case by (simp add: collect_from_def all_windows_def)
next
  case (Cons fc rest)
  obtain fileId commands where fc: "fc = (fileId, commands)" by (cases fc)
  have step: "collect_from (fc # rest) minLength m =
      collect_from rest minLength
        (fold (\<lambda>len patterns. fold (record_window fileId commands len)
                 [0..int (length commands) - len] patterns)
              [minLength..min (int (length commands)) 15] m)"
    by (simp add: collect_from_def fc)
  show ?case
    unfolding step Cons.IH lengths_count
    by (simp add: all_windows_def windows_of_def fc count_list_append)
qed

lemma files_well_keyed:
  "well_keyed m \<Longrightarrow> well_keyed (collect_from allCommands minLength m)"
proof (induction allCommands arbitrary: m)
  case Nil
  then show ?case by (simp add: collect_from_def)
next
  case (Cons fc rest)
  obtain fileId commands where fc: "fc = (fileId, commands)" by (cases fc)
  have step: "collect_from (fc # rest) minLength m =
      collect_from rest minLength
        (fold (\<lambda>len patterns. fold (record_window fileId commands len)
                 [0..int (length commands) - len] patterns)
              [minLength..min (int (length commands)) 15] m)"
    by (simp add: collect_from_def fc)
  show ?case unfolding step by (rule Cons.IH) (rule lengths_well_keyed [OF Cons.prems])
qed

lemma collect_windows_from: "collect_windows allCommands minLength = collect_from allCommands minLength []"
  by (simp add: collect_windows_def collect_from_def)

lemma collect_windows_count:
  "window_count (collect_windows allCommands minLength) k =
     count_list (map sequenceToKey (all_windows allCommands minLength)) k"
  unfolding collect_windows_from files_count by (simp add: window_count_def)

lemma collect_windows_well_keyed: "well_keyed (collect_windows allCommands minLength)"
  unfolding collect_windows_from by (rule files_well_keyed) (simp add: well_keyed_def)

lemma collected_frequency:
  assumes "p \<in> set (map snd (collect_windows allCommands minLength))"
  shows "sp_frequency p =
           count_list (map sequenceToKey (all_windows allCommands minLength))
             (sequenceToKey (sp_sequence p))"
    and "sp_frequency p = length (sp_occurrences p)"
    and "0 < sp_frequency p"
proof -
  let ?m = "collect_windows allCommands minLength"
  from assms obtain k where kp: "(k, p) \<in> set ?m" by auto
  have wk: "well_keyed ?m" by (rule collect_windows_well_keyed)
  with kp have k: "k = sequenceToKey (sp_sequence p)"
    and f: "sp_frequency p = length (sp_occurrences p)" and g: "0 < sp_frequency p"
    by (auto simp: well_keyed_def list_all_iff)
  from wk kp have "map_of ?m k = Some p" by (simp add: well_keyed_def)
  then have "window_count ?m k = sp_frequency p" by (simp add: window_count_def)
  then show "sp_frequency p =
           count_list (map sequenceToKey (all_windows allCommands minLength))
             (sequenceToKey (sp_sequence p))"
    by (simp add: collect_windows_count k)
  show "sp_frequency p = length (sp_occurrences p)" by (rule f)
  show "0 < sp_frequency p" by (rule g)
qed

lemma set_findFrequentSequences:
  "set (findFrequentSequences allCommands minLength minFrequency) \<subseteq>
     {p \<in> set (map snd (collect_windows allCommands minLength)). minFrequency \<le> int (sp_frequency p)}"
proof -
  have "set (findFrequentSequences allCommands minLength minFrequency) \<subseteq>
          set (sort_key (\<lambda>p. - int (sp_frequency p))
                (filter (\<lambda>p. minFrequency \<le> int (sp_frequency p))
                   (map snd (collect_windows allCommands minLength))))"
    unfolding findFrequentSequences_def by (rule set_take_subset)
  then show ?thesis by auto
qed

lemma sorted_desc_take:
  "sorted (map (\<lambda>p. - int (sp_frequency p)) (take n (sort_key (\<lambda>p. - int (sp_frequency p)) ps)))"
  unfolding take_map [symmetric] by (rule sorted_wrt_take) (rule sorted_sort_key)

text \<open>
  Claim C3. For every list of command streams, every minimum length and every minimum
  frequency \<open>F\<close>: every group \<open>findFrequentSequences\<close> returns has frequency at
  least \<open>F\<close>, and that frequency is its occurrence count (the number of occurrences
  it records, and the number of visited windows with its canonical key); the list is
  in descending order of frequency; it has at most 100 groups.
\<close>

theorem findFrequentSequences_threshold_order_cut:
  "(\<forall>p \<in> set (findFrequentSequences allCommands minLength minFrequency).
      minFrequency \<le> int (sp_frequency p) \<and>
      sp_frequency p = length (sp_occurrences p) \<and>
      sp_frequency p = count_list (map sequenceToKey (all_windows allCommands minLength))
                         (sequenceToKey (sp_sequence p))) \<and>
   sorted_wrt (\<lambda>p q. sp_frequency q \<le> sp_frequency p)
     (findFrequentSequences allCommands minLength minFrequency) \<and>
   length (findFrequentSequences allCommands minLength minFrequency) \<le> 100"
proof (intro conjI ballI)
  fix p assume "p \<in> set (findFrequentSequences allCommands minLength minFrequency)"
  with set_findFrequentSequences
  have p: "p \<in> set (map snd (collect_windows allCommands minLength))"
    and f: "minFrequency \<le> int (sp_frequency p)" by blast+
  show "minFrequency \<le> int (sp_frequency p)" by (rule f)
  show "sp_frequency p = length (sp_occurrences p)" by (rule collected_frequency(2) [OF p])
  show "sp_frequency p = count_list (map sequenceToKey (all_windows allCommands minLength))
                         (sequenceToKey (sp_sequence p))" by (rule collected_frequency(1) [OF p])
next
  have "sorted (map (\<lambda>p. - int (sp_frequency p))
          (findFrequentSequences allCommands minLength minFrequency))"
    unfolding findFrequentSequences_def by (rule sorted_desc_take)
  then show "sorted_wrt (\<lambda>p q. sp_frequency q \<le> sp_frequency p)
     (findFrequentSequences allCommands minLength minFrequency)"
    by (simp add: sorted_wrt_map)
next
  show "length (findFrequentSequences allCommands minLength minFrequency) \<le> 100"
    by (simp add: findFrequentSequences_def)
qed

theorem findFrequentSequences_threshold_order_cut_witness:
  "map sp_frequency (findFrequentSequences two_recordings 2 2) = [2, 2, 2] \<and>
   map (\<lambda>p. length (sp_occurrences p)) (findFrequentSequences two_recordings 2 2) = [2, 2, 2] \<and>
   map (\<lambda>p. sequenceToKey (sp_sequence p)) (findFrequentSequences two_recordings 2 2) =
     [''keyboard:keydown:a|delay:wait:'', ''delay:wait:|keyboard:keydown:b'',
      ''keyboard:keydown:a|delay:wait:|keyboard:keydown:b'']"
  using findFrequentSequences_threshold_order_cut [of two_recordings 2 2]
  by code_simp

section \<open>Rounding: exponent and range\<close>

lemma pow2_pos: "0 < pow2 k"
  by (simp add: pow2_def)

lemma pow2_powi: "pow2 k = 2 powi k"
  by (simp add: pow2_def power_int_def inverse_eq_divide power_one_over)

lemma pow2_Suc: "pow2 (k + 1) = 2 * pow2 k"
  by (simp add: pow2_powi power_int_add)

lemma pow2_pred: "pow2 (k - 1) = pow2 k / 2"
  by (simp add: pow2_powi power_int_diff)

text \<open>\<open>ilog2\<close> is the binary exponent: \<open>2 ^ ilog2 x \<le> x < 2 ^ (ilog2 x + 1)\<close>.\<close>

lemma ilog2_bounds: "0 < x \<Longrightarrow> pow2 (ilog2 x) \<le> x \<and> x < pow2 (ilog2 x + 1)"
proof (induction x rule: ilog2.induct)
  case (1 x)
  show ?case
  proof (cases "x < 1")
    case True
    define i where "i = ilog2 (2 * x)"
    from True "1.prems" have e: "ilog2 x = i - 1" unfolding i_def by (subst ilog2.simps) simp
    from "1.IH"(1) True "1.prems"
    have "pow2 i \<le> 2 * x \<and> 2 * x < pow2 (i + 1)" unfolding i_def by simp
    moreover have "pow2 (i - 1) = pow2 i / 2" by (rule pow2_pred)
    moreover have "pow2 (i + 1) = 2 * pow2 i" by (rule pow2_Suc)
    ultimately show ?thesis unfolding e by simp
  next
    case False
    show ?thesis
    proof (cases "2 \<le> x")
      case True
      define i where "i = ilog2 (x / 2)"
      from True False "1.prems" have e: "ilog2 x = i + 1"
        unfolding i_def by (subst ilog2.simps) simp
      from "1.IH"(2) True False "1.prems"
      have "pow2 i \<le> x / 2 \<and> x / 2 < pow2 (i + 1)" unfolding i_def by simp
      moreover have "pow2 (i + 1) = 2 * pow2 i" by (rule pow2_Suc)
      moreover have "pow2 (i + 1 + 1) = 2 * pow2 (i + 1)" by (rule pow2_Suc)
      ultimately show ?thesis unfolding e by simp
    next
      case F2: False
      with False "1.prems" have e: "ilog2 x = 0" by (subst ilog2.simps) simp
      from False F2 show ?thesis unfolding e by (simp add: pow2_def)
    qed
  qed
qed

lemma ilog2_le_0: "x \<le> 1 \<Longrightarrow> ilog2 x \<le> 0"
proof (cases "0 < x")
  case False
  then show ?thesis by (subst ilog2.simps) simp
next
  case True
  assume "x \<le> 1"
  show ?thesis
  proof (rule ccontr)
    assume "\<not> ilog2 x \<le> 0"
    then have i: "1 \<le> nat (ilog2 x)" and j: "0 \<le> ilog2 x" by simp_all
    from i have "(2::real) ^ 1 \<le> 2 ^ nat (ilog2 x)" by (intro power_increasing) simp_all
    with j have "2 \<le> pow2 (ilog2 x)" by (simp add: pow2_def)
    with ilog2_bounds [OF True] have "2 \<le> x" by simp
    with \<open>x \<le> 1\<close> show False by simp
  qed
qed

lemma round_half_even_nonneg: "0 \<le> m \<Longrightarrow> 0 \<le> round_half_even m"
  by (simp add: round_half_even_def Let_def)

lemma round_half_even_le: "m \<le> of_int n \<Longrightarrow> round_half_even m \<le> n"
proof -
  assume m: "m \<le> of_int n"
  then have f: "\<lfloor>m\<rfloor> \<le> n" by (simp add: floor_le_iff)
  show ?thesis
  proof (cases "\<lfloor>m\<rfloor> = n")
    case True
    with m have "m - of_int \<lfloor>m\<rfloor> \<le> 0" by simp
    then show ?thesis using True by (simp add: round_half_even_def Let_def)
  next
    case False
    with f have "\<lfloor>m\<rfloor> + 1 \<le> n" by simp
    with f show ?thesis by (simp add: round_half_even_def Let_def)
  qed
qed

lemma fp_round_nonneg: "0 \<le> x \<Longrightarrow> 0 \<le> fp_round p emin x"
  by (auto simp: fp_round_def Let_def pow2_pos less_imp_le round_half_even_nonneg
        intro!: mult_nonneg_nonneg)

lemma fp_round_le_1:
  assumes "0 \<le> x" "x \<le> 1" "0 < p" "emin \<le> 0"
  shows "fp_round p emin x \<le> 1"
proof (cases "x = 0")
  case True
  then show ?thesis by (simp add: fp_round_def)
next
  case False
  with assms have pos: "0 < x" by simp
  define k where "k = max (ilog2 \<bar>x\<bar>) emin - int p + 1"
  from assms pos have "ilog2 \<bar>x\<bar> \<le> 0" by (simp add: ilog2_le_0)
  with assms have k: "k \<le> 0" unfolding k_def by simp
  define n where "n = nat (- k)"
  from k have q: "pow2 k = 1 / 2 ^ n" unfolding n_def by (simp add: pow2_def)
  have "\<bar>x\<bar> / pow2 k \<le> of_int (2 ^ n)" using assms pos by (simp add: q)
  then have "round_half_even (\<bar>x\<bar> / pow2 k) \<le> 2 ^ n" by (rule round_half_even_le)
  then have "real_of_int (round_half_even (\<bar>x\<bar> / pow2 k)) \<le> 2 ^ n"
    by (metis of_int_le_iff of_int_numeral of_int_power)
  then have "real_of_int (round_half_even (\<bar>x\<bar> / pow2 k)) * pow2 k \<le> 1"
    by (simp add: q field_simps)
  with pos show ?thesis by (simp add: fp_round_def Let_def k_def)
qed

lemma to_single_unit: "0 \<le> c \<Longrightarrow> c \<le> 1 \<Longrightarrow> 0 \<le> to_single c \<and> to_single c \<le> 1"
  by (simp add: to_single_def fp_round_nonneg fp_round_le_1)

lemma to_double_nonneg: "0 \<le> c \<Longrightarrow> 0 \<le> to_double c"
  by (simp add: to_double_def fp_round_nonneg)

section \<open>Mining: persisted confidence, and few sequences\<close>

lemma findFrequentSequences_Nil: "findFrequentSequences [] minLength minFrequency = []"
  by (simp add: findFrequentSequences_def collect_windows_def)

lemma values_have_windows:
  assumes "p \<in> set (map snd (collect_windows allCommands minLength))"
  shows "\<exists>w \<in> set (all_windows allCommands minLength).
           sequenceToKey w = sequenceToKey (sp_sequence p)"
proof -
  from collected_frequency(1,3) [OF assms]
  have "count_list (map sequenceToKey (all_windows allCommands minLength))
          (sequenceToKey (sp_sequence p)) \<noteq> 0" by simp
  then have "sequenceToKey (sp_sequence p) \<in> set (map sequenceToKey (all_windows allCommands minLength))"
    by (simp only: count_list_0_iff not_not)
  then show ?thesis by auto
qed

lemma windows_have_values:
  assumes "w \<in> set (all_windows allCommands minLength)"
  shows "\<exists>p \<in> set (map snd (collect_windows allCommands minLength)).
           sp_frequency p = count_list (map sequenceToKey (all_windows allCommands minLength))
                              (sequenceToKey w)"
proof -
  let ?m = "collect_windows allCommands minLength"
  let ?k = "sequenceToKey w"
  from assms have "?k \<in> set (map sequenceToKey (all_windows allCommands minLength))" by simp
  then have "count_list (map sequenceToKey (all_windows allCommands minLength)) ?k \<noteq> 0"
    by (simp only: count_list_0_iff not_not)
  then have c: "window_count ?m ?k \<noteq> 0" by (simp add: collect_windows_count)
  then obtain p where p: "map_of ?m ?k = Some p"
    by (cases "map_of ?m ?k") (simp_all add: window_count_def)
  then have "(?k, p) \<in> set ?m" by (rule map_of_SomeD)
  then have "p \<in> set (map snd ?m)" by force
  moreover from p have "sp_frequency p = window_count ?m ?k" by (simp add: window_count_def)
  ultimately show ?thesis by (auto simp only: collect_windows_count)
qed

lemma sort_key_Nil_iff: "sort_key f xs = [] \<longleftrightarrow> xs = []"
  using length_sort [of f xs] by (metis length_0_conv)

lemma findFrequentSequences_empty_iff:
  "findFrequentSequences allCommands minLength minFrequency = [] \<longleftrightarrow>
     (\<forall>w \<in> set (all_windows allCommands minLength).
        int (count_list (map sequenceToKey (all_windows allCommands minLength))
               (sequenceToKey w)) < minFrequency)"
  (is "?lhs \<longleftrightarrow> ?rhs")
proof -
  let ?vs = "map snd (collect_windows allCommands minLength)"
  have "?lhs \<longleftrightarrow> filter (\<lambda>p. minFrequency \<le> int (sp_frequency p)) ?vs = []"
    by (simp add: findFrequentSequences_def sort_key_Nil_iff)
  also have "\<dots> \<longleftrightarrow> (\<forall>p \<in> set ?vs. int (sp_frequency p) < minFrequency)"
    by (auto simp: filter_empty_conv)
  also have "\<dots> \<longleftrightarrow> ?rhs"
  proof
    assume l: "\<forall>p \<in> set ?vs. int (sp_frequency p) < minFrequency"
    show ?rhs
    proof
      fix w assume "w \<in> set (all_windows allCommands minLength)"
      from windows_have_values [OF this] l
      show "int (count_list (map sequenceToKey (all_windows allCommands minLength))
               (sequenceToKey w)) < minFrequency" by auto
    qed
  next
    assume r: ?rhs
    show "\<forall>p \<in> set ?vs. int (sp_frequency p) < minFrequency"
    proof
      fix p assume p: "p \<in> set ?vs"
      from values_have_windows [OF p] obtain w where
        w: "w \<in> set (all_windows allCommands minLength)"
        and k: "sequenceToKey w = sequenceToKey (sp_sequence p)" by blast
      from r w have "int (count_list (map sequenceToKey (all_windows allCommands minLength))
               (sequenceToKey w)) < minFrequency" by blast
      then show "int (sp_frequency p) < minFrequency"
        by (simp add: k collected_frequency(1) [OF p, symmetric])
    qed
  qed
  finally show ?thesis .
qed

lemma all_windows_single: "all_windows [(fileId, commands)] minLength = windows_of commands minLength"
  by (simp add: all_windows_def)

lemma savePatterns_rows:
  "p \<in> set (fst (savePatterns env totalFiles patterns)) \<Longrightarrow>
   \<exists>pattern stamp. pattern \<in> set patterns \<and> p = saved_row stamp (pattern_values totalFiles pattern)"
proof (induction patterns)
  case Nil
  then show ?case by simp
next
  case (Cons pattern rest)
  then show ?case
    by (auto split: sum.splits prod.splits)
qed

lemma savePatterns_nothing:
  "savePatterns env totalFiles patterns = ([], None) \<longleftrightarrow> patterns = []"
  by (cases patterns) (auto split: sum.splits prod.splits)

lemma savePatterns_outcome:
  "(\<exists>e rows. savePatterns env totalFiles patterns = (rows, Some e)) \<or>
   (\<exists>rows. savePatterns env totalFiles patterns = (rows, None) \<and> (rows = [] \<longleftrightarrow> patterns = []))"
proof (cases "savePatterns env totalFiles patterns")
  case (Pair rows err)
  show ?thesis
  proof (cases err)
    case None
    with Pair savePatterns_nothing [of env totalFiles patterns] show ?thesis by auto
  next
    case (Some e)
    with Pair show ?thesis by simp
  qed
qed

lemma minePatterns_loaded:
  assumes "lookupFiles env fileIds = Inr fileContents"
    and "readCommands env fileContents = Inr allCommands"
  shows "minePatterns env fileIds minLength minFrequency =
           (case savePatterns env (length fileIds)
                   (findFrequentSequences allCommands minLength minFrequency) of
              (rows, None) \<Rightarrow> (Inr (map (returned_row env) rows), rows)
            | (rows, Some e) \<Rightarrow> (Inl e, rows))"
  using assms by (simp add: minePatterns_def)

lemma minePatterns_nothing_iff:
  assumes "lookupFiles env fileIds = Inr fileContents"
    and "readCommands env fileContents = Inr allCommands"
  shows "minePatterns env fileIds minLength minFrequency = (Inr [], []) \<longleftrightarrow>
           findFrequentSequences allCommands minLength minFrequency = []"
proof -
  let ?ps = "findFrequentSequences allCommands minLength minFrequency"
  have "minePatterns env fileIds minLength minFrequency = (Inr [], []) \<longleftrightarrow>
          savePatterns env (length fileIds) ?ps = ([], None)"
    unfolding minePatterns_loaded [OF assms]
    by (auto split: prod.splits option.splits)
  then show ?thesis by (simp add: savePatterns_nothing)
qed

lemma minePatterns_outcome:
  assumes "lookupFiles env fileIds = Inr fileContents"
    and "readCommands env fileContents = Inr allCommands"
  shows "(\<exists>e rows. minePatterns env fileIds minLength minFrequency = (Inl e, rows)) \<or>
         (\<exists>rows. minePatterns env fileIds minLength minFrequency =
                  (Inr (map (returned_row env) rows), rows))"
  unfolding minePatterns_loaded [OF assms]
  by (auto split: prod.splits option.splits)

lemma mineRoute_few_ids:
  "body_fileIds body = None \<or> (\<exists>ids. body_fileIds body = Some ids \<and> length ids < 2) \<Longrightarrow>
   mineRoute env body = (Status400, [])"
  by (auto simp: mineRoute_def Let_def)

lemma minePatterns_persisted:
  assumes "p \<in> set (snd (minePatterns env fileIds minLength minFrequency))"
  obtains pattern stamp where
    "fileIds \<noteq> []"
    "minFrequency \<le> int (sp_frequency pattern)"
    "p = saved_row stamp (pattern_values (length fileIds) pattern)"
proof -
  from assms obtain fileContents allCommands where
    l: "lookupFiles env fileIds = Inr fileContents"
    and r: "readCommands env fileContents = Inr allCommands"
    by (auto simp: minePatterns_def split: sum.splits)
  let ?ps = "findFrequentSequences allCommands minLength minFrequency"
  from assms have "p \<in> set (fst (savePatterns env (length fileIds) ?ps))"
    unfolding minePatterns_loaded [OF l r] by (auto split: prod.splits option.splits)
  from savePatterns_rows [OF this] obtain pattern stamp where
    mem: "pattern \<in> set ?ps"
    and p: "p = saved_row stamp (pattern_values (length fileIds) pattern)" by blast
  from mem set_findFrequentSequences have f: "minFrequency \<le> int (sp_frequency pattern)" by blast
  have "fileIds \<noteq> []"
  proof
    assume "fileIds = []"
    with l r have "allCommands = []" by auto
    with mem show False by (simp add: findFrequentSequences_Nil)
  qed
  with f p that show thesis by blast
qed

text \<open>
  Claim C5, as the code has it. For every pattern persisted by mining over a list of
  supplied file ids, the confidence handed to the insert is
  \<open>min(frequency / (sourceCount * 2), 1.0)\<close> evaluated in doubles, with
  \<open>sourceCount\<close> the number of supplied ids, and the persisted confidence is that
  number rounded to a single, the column being a \<open>real\<close>. Both lie between 0 and
  1, neither is \<open>NaN\<close>, and the frequency is at least the minimum frequency of the
  call. This holds of every row the call inserts, also when a later insert is
  rejected.
\<close>

theorem minePatterns_persisted_confidence:
  assumes "p \<in> set (snd (minePatterns env fileIds minLength minFrequency))"
  shows "\<exists>c. c = min (to_double (real (pat_frequency p) / real (length fileIds * 2))) 1 \<and>
             pat_confidence p = Num (to_single c) \<and>
             0 \<le> c \<and> c \<le> 1 \<and> 0 \<le> to_single c \<and> to_single c \<le> 1 \<and>
             minFrequency \<le> int (pat_frequency p)"
proof -
  from assms obtain pattern stamp where
    ne: "fileIds \<noteq> []"
    and f: "minFrequency \<le> int (sp_frequency pattern)"
    and p: "p = saved_row stamp (pattern_values (length fileIds) pattern)"
    by (rule minePatterns_persisted)
  define c where "c = min (to_double (real (pat_frequency p) / real (length fileIds * 2))) 1"
  have freq: "pat_frequency p = sp_frequency pattern"
    by (simp add: p saved_row_def pattern_values_def)
  from ne have "length fileIds * 2 \<noteq> 0" by simp
  then have conf: "pat_confidence p = Num (to_single c)"
    by (simp add: p saved_row_def pattern_values_def calculateConfidence_def
          to_real_column_def c_def)
  have "0 \<le> to_double (real (pat_frequency p) / real (length fileIds * 2))"
    by (rule to_double_nonneg) simp
  then have c: "0 \<le> c" "c \<le> 1" unfolding c_def by simp_all
  from to_single_unit [OF c] conf c f freq show ?thesis unfolding c_def by simp
qed

text \<open>
  Two recordings that share frequent windows, mined with minimum length and
  frequency 2: the confidence \<open>2 / 4\<close> is a single, and is persisted as it is.
\<close>

theorem minePatterns_persisted_confidence_witness:
  "map (\<lambda>p. (pat_frequency p, pat_confidence p))
     (snd (minePatterns two_env [''F1'', ''F2''] 2 2)) =
     [(2, Num (1 / 2)), (2, Num (1 / 2)), (2, Num (1 / 2))]"
proof -
  let ?rows = "snd (minePatterns two_env [''F1'', ''F2''] 2 2)"
  have h: "hd ?rows \<in> set ?rows" by code_simp
  have v: "map (\<lambda>p. (pat_frequency p, pat_confidence p)) ?rows =
     [(2, Num (1 / 2)), (2, Num (1 / 2)), (2, Num (1 / 2))]" by code_simp
  from minePatterns_persisted_confidence [OF h] v show ?thesis by simp
qed

text \<open>
  The same two recordings with a third id that has no stored row: three ids are
  supplied, the frequency is 2, and the persisted confidence is the single nearest
  to one third, which is neither \<open>min(2 / (3 * 2), 1)\<close> nor the double nearest to
  it. The rows the call returns carry the double nearest to \<open>0.33333334\<close>, which
  is neither of them either.
\<close>

theorem minePatterns_confidence_rounded_counterexample:
  "map (\<lambda>p. (pat_frequency p, pat_confidence p))
     (snd (minePatterns two_env [''F1'', ''F2'', ''F9''] 2 2)) =
     [(2, Num (11184811 / 33554432)), (2, Num (11184811 / 33554432)),
      (2, Num (11184811 / 33554432))] \<and>
   map_sum id (map pat_confidence) (fst (minePatterns two_env [''F1'', ''F2'', ''F9''] 2 2)) =
     Inr [Num (to_double (33333334 / 100000000)), Num (to_double (33333334 / 100000000)),
          Num (to_double (33333334 / 100000000))] \<and>
   to_double (33333334 / 100000000) \<noteq> min (2 / (3 * 2)) 1 \<and>
   to_double (33333334 / 100000000) \<noteq> min (to_double (2 / (3 * 2))) 1 \<and>
   (11184811 / 33554432 :: real) \<noteq> min (2 / (3 * 2)) 1 \<and>
   (11184811 / 33554432 :: real) \<noteq> min (to_double (2 / (3 * 2))) 1"
  by code_simp

text \<open>
  Claim C4, as the code has it. When the stored files of a request read and parse,
  \<open>minePatterns\<close> yields no patterns, returns without error and inserts nothing
  exactly when no visited window has a canonical key that occurs \<open>minFrequency\<close>
  times or more among the windows of the sequences read. That is so when no
  sequence is read (an empty id list, or ids without a stored row). When exactly
  one sequence is read, it is so exactly when no window key occurs \<open>minFrequency\<close>
  times inside that sequence. Otherwise the call either returns the non-empty list
  of rows it has inserted, or throws because an insert was rejected. The route
  answers a request with no id list, or with fewer than two ids, with status 400
  and never calls \<open>minePatterns\<close> for it.
\<close>

theorem minePatterns_without_patterns:
  assumes "lookupFiles env fileIds = Inr fileContents"
    and "readCommands env fileContents = Inr allCommands"
  shows
    "(minePatterns env fileIds minLength minFrequency = (Inr [], []) \<longleftrightarrow>
        (\<forall>w \<in> set (all_windows allCommands minLength).
           int (count_list (map sequenceToKey (all_windows allCommands minLength))
                  (sequenceToKey w)) < minFrequency)) \<and>
     (allCommands = [] \<longrightarrow> minePatterns env fileIds minLength minFrequency = (Inr [], [])) \<and>
     (\<forall>fileId commands. allCommands = [(fileId, commands)] \<longrightarrow>
        (minePatterns env fileIds minLength minFrequency = (Inr [], []) \<longleftrightarrow>
           (\<forall>w \<in> set (windows_of commands minLength).
              int (count_list (map sequenceToKey (windows_of commands minLength))
                     (sequenceToKey w)) < minFrequency))) \<and>
     (minePatterns env fileIds minLength minFrequency \<noteq> (Inr [], []) \<longrightarrow>
        (\<exists>e rows. minePatterns env fileIds minLength minFrequency = (Inl e, rows)) \<or>
        (\<exists>rows. rows \<noteq> [] \<and>
                minePatterns env fileIds minLength minFrequency =
                  (Inr (map (returned_row env) rows), rows))) \<and>
     (\<forall>body. body_fileIds body = None \<or>
             (\<exists>ids. body_fileIds body = Some ids \<and> length ids < 2) \<longrightarrow>
             mineRoute env body = (Status400, []))"
proof -
  have general: "minePatterns env fileIds minLength minFrequency = (Inr [], []) \<longleftrightarrow>
        (\<forall>w \<in> set (all_windows allCommands minLength).
           int (count_list (map sequenceToKey (all_windows allCommands minLength))
                  (sequenceToKey w)) < minFrequency)"
    unfolding minePatterns_nothing_iff [OF assms] by (rule findFrequentSequences_empty_iff)
  have none: "allCommands = [] \<longrightarrow> minePatterns env fileIds minLength minFrequency = (Inr [], [])"
    unfolding general by (simp add: all_windows_def)
  have single: "\<forall>fileId commands. allCommands = [(fileId, commands)] \<longrightarrow>
        (minePatterns env fileIds minLength minFrequency = (Inr [], []) \<longleftrightarrow>
           (\<forall>w \<in> set (windows_of commands minLength).
              int (count_list (map sequenceToKey (windows_of commands minLength))
                     (sequenceToKey w)) < minFrequency))"
    unfolding general by (simp add: all_windows_single)
  have other: "minePatterns env fileIds minLength minFrequency \<noteq> (Inr [], []) \<longrightarrow>
        (\<exists>e rows. minePatterns env fileIds minLength minFrequency = (Inl e, rows)) \<or>
        (\<exists>rows. rows \<noteq> [] \<and>
                minePatterns env fileIds minLength minFrequency =
                  (Inr (map (returned_row env) rows), rows))"
    using minePatterns_outcome [OF assms, of minLength minFrequency] by auto
  have route: "\<forall>body. body_fileIds body = None \<or>
             (\<exists>ids. body_fileIds body = Some ids \<and> length ids < 2) \<longrightarrow>
             mineRoute env body = (Status400, [])"
    by (simp add: mineRoute_few_ids)
  from general none single other route show ?thesis by blast
qed

text \<open>
  A request with the two ids \<open>F1\<close> and \<open>F2\<close> passes the guard of the route. Only
  \<open>F1\<close> has a stored row, so exactly one sequence is read; it repeats a key four
  times, and with minimum length 3 and minimum frequency 2 one pattern of frequency
  2 is persisted and returned with status 200.
\<close>

theorem minePatterns_one_sequence_counterexample:
  "(case lookupFiles repeat_env [''F1'', ''F2''] of
      Inl e \<Rightarrow> Inl e
    | Inr fileContents \<Rightarrow> readCommands repeat_env fileContents) =
     Inr [(''F1'', [keydown ''a'', keydown ''a'', keydown ''a'', keydown ''a''])] \<and>
   map_sum id (map pat_frequency) (fst (minePatterns repeat_env [''F1'', ''F2''] 3 2)) = Inr [2] \<and>
   (case fst (mineRoute repeat_env one_stored_body) of
      Status200 jobId patterns \<Rightarrow> map pat_frequency patterns
    | Status400 \<Rightarrow> []
    | Status500 \<Rightarrow> []) = [2]"
  by code_simp

theorem minePatterns_without_patterns_witness:
  "minePatterns repeat_env [''F1'', ''F2''] 3 3 = (Inr [], []) \<and>
   minePatterns repeat_env [''F1'', ''F2''] 3 2 \<noteq> (Inr [], []) \<and>
   minePatterns repeat_env [''F2''] 3 2 = (Inr [], []) \<and>
   mineRoute repeat_env
     \<lparr>body_fileIds = Some [''F1''], body_minSequenceLength = None, body_minFrequency = None\<rparr> =
     (Status400, [])"
proof -
  have l: "lookupFiles repeat_env [''F1'', ''F2''] = Inr [(''F1'', Some ''f1.mcr''), (''F2'', None)]"
    by code_simp
  have r: "readCommands repeat_env [(''F1'', Some ''f1.mcr''), (''F2'', None)] =
             Inr [(''F1'', [keydown ''a'', keydown ''a'', keydown ''a'', keydown ''a''])]"
    by code_simp
  have v: "minePatterns repeat_env [''F1'', ''F2''] 3 3 = (Inr [], []) \<and>
   minePatterns repeat_env [''F1'', ''F2''] 3 2 \<noteq> (Inr [], []) \<and>
   minePatterns repeat_env [''F2''] 3 2 = (Inr [], []) \<and>
   mineRoute repeat_env
     \<lparr>body_fileIds = Some [''F1''], body_minSequenceLength = None, body_minFrequency = None\<rparr> =
     (Status400, [])" by code_simp
  from minePatterns_without_patterns [OF l r, of 3 3] v show ?thesis by simp
qed

section \<open>Transition analysis: exact counts\<close>

lemma add_transition_count:
  "edge_count (add_transition commands i transitions) a b =
     edge_count transitions a b +
       (if a = state_key (commands ! i) \<and> b = state_key (commands ! (i + 1)) then 1 else 0)"
  by (auto simp: edge_count_def add_transition_def Let_def map_of_map_set split: option.splits)

lemma add_transition_eq:
  "add_transition commands i transitions =
     (let current = state_key (commands ! i);
          next = state_key (commands ! (i + 1));
          nextMap = (case map_of transitions current of None \<Rightarrow> [] | Some nm \<Rightarrow> nm)
      in map_set transitions current
           (map_set nextMap next ((case map_of nextMap next of None \<Rightarrow> 0 | Some c \<Rightarrow> c) + 1)))"
  by (auto simp: add_transition_def Let_def map_of_map_set map_set_twice split: option.splits)

lemma add_transition_positive:
  assumes "positive_counts transitions"
  shows "positive_counts (add_transition commands i transitions)"
proof -
  define cur where "cur = state_key (commands ! i)"
  define nxt where "nxt = state_key (commands ! (i + 1))"
  define nm where "nm = (case map_of transitions cur of None \<Rightarrow> [] | Some nm \<Rightarrow> nm)"
  define old where "old = (case map_of nm nxt of None \<Rightarrow> 0 | Some c \<Rightarrow> c)"
  have nm: "list_all (\<lambda>(b, c). 0 < c) nm"
  proof (cases "map_of transitions cur")
    case None
    then show ?thesis by (simp add: nm_def)
  next
    case (Some r)
    then have "(cur, r) \<in> set transitions" by (rule map_of_SomeD)
    with assms have "list_all (\<lambda>(b, c). 0 < c) r"
      by (auto simp: positive_counts_def list_all_iff)
    with Some show ?thesis by (simp add: nm_def)
  qed
  have "0 \<le> old"
  proof (cases "map_of nm nxt")
    case None
    then show ?thesis by (simp add: old_def)
  next
    case (Some c)
    then have "(nxt, c) \<in> set nm" by (rule map_of_SomeD)
    with nm have "0 < c" by (auto simp: list_all_iff)
    with Some show ?thesis by (simp add: old_def)
  qed
  then have "0 < old + 1" by simp
  with nm have "list_all (\<lambda>(b, c). 0 < c) (map_set nm nxt (old + 1))"
    by (simp add: list_all_map_set)
  moreover have "add_transition commands i transitions =
      map_set transitions cur (map_set nm nxt (old + 1))"
    by (simp add: add_transition_eq Let_def cur_def nxt_def nm_def old_def)
  ultimately show ?thesis
    using assms by (simp add: positive_counts_def list_all_map_set)
qed

lemma add_transition_unique:
  assumes "unique_keys transitions"
  shows "unique_keys (add_transition commands i transitions)"
proof -
  define cur where "cur = state_key (commands ! i)"
  define nxt where "nxt = state_key (commands ! (i + 1))"
  define nm where "nm = (case map_of transitions cur of None \<Rightarrow> [] | Some nm \<Rightarrow> nm)"
  define old where "old = (case map_of nm nxt of None \<Rightarrow> 0 | Some c \<Rightarrow> c)"
  have nm: "distinct (map fst nm)"
  proof (cases "map_of transitions cur")
    case None
    then show ?thesis by (simp add: nm_def)
  next
    case (Some r)
    then have "(cur, r) \<in> set transitions" by (rule map_of_SomeD)
    with assms have "distinct (map fst r)" by (auto simp: unique_keys_def list_all_iff)
    with Some show ?thesis by (simp add: nm_def)
  qed
  have "add_transition commands i transitions =
      map_set transitions cur (map_set nm nxt (old + 1))"
    by (simp add: add_transition_eq Let_def cur_def nxt_def nm_def old_def)
  with nm assms show ?thesis
    by (simp add: unique_keys_def list_all_map_set distinct_map_set)
qed

lemma indices_count:
  "edge_count (fold (add_transition commands) is transitions) a b =
     edge_count transitions a b +
       int (count_list (map (\<lambda>i. (state_key (commands ! i), state_key (commands ! (i + 1)))) is) (a, b))"
  by (induction "is" arbitrary: transitions) (simp_all add: add_transition_count)

lemma indices_positive:
  "positive_counts transitions \<Longrightarrow> positive_counts (fold (add_transition commands) is transitions)"
  by (induction "is" arbitrary: transitions) (simp_all add: add_transition_positive)

lemma indices_unique:
  "unique_keys transitions \<Longrightarrow> unique_keys (fold (add_transition commands) is transitions)"
  by (induction "is" arbitrary: transitions) (simp_all add: add_transition_unique)

lemma adjacent_states_nth:
  "map (\<lambda>i. (state_key (commands ! i), state_key (commands ! (i + 1)))) [0..<length commands - 1] =
     adjacent_states commands"
  unfolding adjacent_states_def
  by (rule nth_equalityI) (auto simp: nth_tl)

lemma count_transitions_count:
  "edge_count (count_transitions commands transitions) a b =
     edge_count transitions a b + int (count_list (adjacent_states commands) (a, b))"
  unfolding count_transitions_def indices_count adjacent_states_nth by (rule refl)

lemma sequences_count:
  "edge_count (fold count_transitions seqs transitions) a b =
     edge_count transitions a b +
       int (sum_list (map (\<lambda>commands. count_list (adjacent_states commands) (a, b)) seqs))"
  by (induction seqs arbitrary: transitions) (simp_all add: count_transitions_count)

lemma sequences_positive:
  "positive_counts transitions \<Longrightarrow> positive_counts (fold count_transitions seqs transitions)"
  by (induction seqs arbitrary: transitions) (simp_all add: count_transitions_def indices_positive)

lemma sequences_unique:
  "unique_keys transitions \<Longrightarrow> unique_keys (fold count_transitions seqs transitions)"
  by (induction seqs arbitrary: transitions) (simp_all add: count_transitions_def indices_unique)

lemma analyzeFiles_loadSequences:
  "analyzeFiles env fileIds transitions =
     map_sum id (\<lambda>seqs. fold count_transitions seqs transitions) (loadSequences env fileIds)"
  by (induction fileIds arbitrary: transitions) (auto split: sum.splits option.splits)

text \<open>
  Claim C6. When the files of the request read and parse, the transition analysis
  returns a table in which the count of every edge \<open>a \<rightarrow> b\<close> is the number of
  adjacent pairs \<open>(cmd[i], cmd[i+1])\<close> inside one command list whose states
  \<open>type:(key or action)\<close> are \<open>a\<close> and \<open>b\<close>, summed over the lists: one
  increment per adjacent pair, none for a pair that spans two lists. Every count the
  table stores is positive, and no key stands twice.
\<close>

theorem analyzeCommandTransitions_counts:
  assumes "loadSequences env fileIds = Inr seqs"
  shows "\<exists>transitions.
           analyzeCommandTransitions env fileIds = Inr transitions \<and>
           (\<forall>a b. edge_count transitions a b =
                    int (sum_list (map (\<lambda>commands. count_list (adjacent_states commands) (a, b)) seqs))) \<and>
           positive_counts transitions \<and> unique_keys transitions"
proof -
  let ?t = "fold count_transitions seqs []"
  from assms have "analyzeCommandTransitions env fileIds = Inr ?t"
    by (simp add: analyzeCommandTransitions_def analyzeFiles_loadSequences)
  moreover have "\<forall>a b. edge_count ?t a b =
      int (sum_list (map (\<lambda>commands. count_list (adjacent_states commands) (a, b)) seqs))"
  proof (intro allI)
    fix a b
    have "edge_count [] a b = 0" by (simp add: edge_count_def)
    then show "edge_count ?t a b =
      int (sum_list (map (\<lambda>commands. count_list (adjacent_states commands) (a, b)) seqs))"
      unfolding sequences_count by simp
  qed
  moreover have "positive_counts ?t" by (rule sequences_positive) (simp add: positive_counts_def)
  moreover have "unique_keys ?t" by (rule sequences_unique) (simp add: unique_keys_def)
  ultimately show ?thesis by blast
qed

lemma analyzeCommandTransitions_error:
  "loadSequences env fileIds = Inl e \<Longrightarrow> analyzeCommandTransitions env fileIds = Inl e"
  by (simp add: analyzeCommandTransitions_def analyzeFiles_loadSequences)

text \<open>
  The two recordings: \<open>F1\<close> ends with key b and \<open>F2\<close> starts with key a, and
  the table has no edge from \<open>keyboard:b\<close> to \<open>keyboard:a\<close>.
\<close>

theorem analyzeCommandTransitions_counts_witness:
  "analyzeCommandTransitions two_env [''F1'', ''F2''] =
     Inr [(''keyboard:a'', [(''delay:wait'', 2)]),
          (''delay:wait'', [(''keyboard:b'', 2)]),
          (''keyboard:b'', [(''keyboard:c'', 1)])]"
proof -
  have l: "loadSequences two_env [''F1'', ''F2''] =
             Inr [[keydown ''a'', wait 50, keydown ''b''],
                  [keydown ''a'', wait 55, keydown ''b'', keydown ''c'']]" by code_simp
  have v: "analyzeCommandTransitions two_env [''F1'', ''F2''] =
     Inr [(''keyboard:a'', [(''delay:wait'', 2)]),
          (''delay:wait'', [(''keyboard:b'', 2)]),
          (''keyboard:b'', [(''keyboard:c'', 1)])]" by code_simp
  from analyzeCommandTransitions_counts [OF l] v show ?thesis by simp
qed

section \<open>Prediction: the first maximal successor\<close>








lemma split_on_no_sep: "sep \<notin> set s \<Longrightarrow> split_on sep s = [s]"
  by (induction s) auto

lemma split_on_first: "sep \<notin> set t \<Longrightarrow> split_on sep (t @ sep # s) = t # split_on sep s"
  by (induction t) auto

text \<open>
  The state of a command is such a key when its key (or, without a key, its action)
  holds no colon and, for a keyboard command, is not empty.
\<close>

lemma plain_state_state_key:
  assumes "CHR '':'' \<notin> set (or_else (cmd_key cmd) (cmd_action cmd))"
    and "cmd_type cmd \<noteq> Keyboard \<or> or_else (cmd_key cmd) (cmd_action cmd) \<noteq> []"
  shows "plain_state (state_key cmd)"
proof -
  have t: "CHR '':'' \<notin> set (type_name (cmd_type cmd))" by (cases "cmd_type cmd") simp_all
  have k: "type_name (cmd_type cmd) = ''keyboard'' \<longleftrightarrow> cmd_type cmd = Keyboard"
    by (cases "cmd_type cmd") simp_all
  from assms(1) have "split_on CHR '':'' (state_key cmd) =
      [type_name (cmd_type cmd), or_else (cmd_key cmd) (cmd_action cmd)]"
    by (simp add: state_key_def split_on_first [OF t] split_on_no_sep)
  with assms(2) k show ?thesis by (auto simp: plain_state_def)
qed






section \<open>Profiles: the default flag\<close>

lemma default_count_unset: "default_count (unset_defaults rows) = 0"
  by (auto simp: default_count_def unset_defaults_def filter_empty_conv)

lemma ids_updated:
  "map prof_id (map (\<lambda>r. if prof_id r = pid then apply_updates updates r else r) rows) =
     map prof_id rows"
  by (induction rows) (simp_all add: apply_updates_def)

lemma ids_unset: "map prof_id (unset_defaults rows) = map prof_id rows"
  by (induction rows) (simp_all add: unset_defaults_def)

lemma createProfile_default_created:
  assumes "truthy (ins_isDefault profile)"
    and "createProfile newId profile rows = (Inr created, rows')"
  shows "default_count rows' = 1 \<and> prof_isDefault created = Some True \<and> created \<in> set rows'"
proof -
  from assms have "rows' = unset_defaults rows @ [created]"
    and "prof_isDefault created = Some True"
    by (auto simp: createProfile_def Let_def truthy_def inserted_flag_def
          split: if_splits field.splits)
  then show ?thesis
    using default_count_unset [of rows] by (simp add: default_count_def)
qed

lemma createProfile_default_rejected:
  assumes "truthy (ins_isDefault profile)"
    and "createProfile newId profile rows = (Inl e, rows')"
  shows "default_count rows' = 0"
  using assms default_count_unset [of rows]
  by (auto simp: createProfile_def Let_def split: if_splits field.splits)

lemma default_count_updated:
  assumes "upd_isDefault updates = Value True" and "distinct (map prof_id rows)"
  shows "default_count (map (\<lambda>r. if prof_id r = pid then apply_updates updates r else r)
                            (unset_defaults rows)) =
           (if pid \<in> set (map prof_id rows) then 1 else 0)"
  using assms(2)
proof (induction rows)
  case Nil
  show ?case by (simp add: default_count_def unset_defaults_def)
next
  case (Cons r rows)
  then have IH: "default_count (map (\<lambda>r. if prof_id r = pid then apply_updates updates r else r)
                            (unset_defaults rows)) =
           (if pid \<in> set (map prof_id rows) then 1 else 0)"
    and fresh: "prof_id r \<notin> set (map prof_id rows)" by simp_all
  have split: "default_count (map (\<lambda>r. if prof_id r = pid then apply_updates updates r else r)
                            (unset_defaults (r # rows))) =
     (if prof_id r = pid then 1 else 0) +
     default_count (map (\<lambda>r. if prof_id r = pid then apply_updates updates r else r)
                            (unset_defaults rows))"
    using assms(1) by (simp add: default_count_def unset_defaults_def apply_updates_def)
  show ?case unfolding split IH using fresh by auto
qed

lemma updateProfile_default_found:
  assumes "truthy (upd_isDefault updates)" and "distinct (map prof_id rows)"
    and "updateProfile pid updates rows = (Inr (Some r), rows')"
  shows "default_count rows' = 1"
proof -
  from assms(1) have v: "upd_isDefault updates = Value True" by (simp add: truthy_def)
  from assms(3) v have rows': "rows' = map (\<lambda>r. if prof_id r = pid then apply_updates updates r else r)
                            (unset_defaults rows)"
    and f: "find (\<lambda>r. prof_id r = pid) rows' = Some r"
    by (auto simp: updateProfile_def Let_def truthy_def split: if_splits)
  from f have "r \<in> set rows'" "prof_id r = pid" by (auto simp: find_Some_iff)
  then have "pid \<in> set (map prof_id rows')" by force
  also have "map prof_id rows' = map prof_id rows"
    unfolding rows' ids_updated by (rule ids_unset)
  finally show ?thesis
    unfolding rows' by (simp add: default_count_updated [OF v assms(2)])
qed

lemma updateProfile_default_missing:
  assumes "truthy (upd_isDefault updates)" and "pid \<notin> set (map prof_id rows)"
  shows "updateProfile pid updates rows = (Inr None, unset_defaults rows)"
proof -
  from assms(2) have n: "pid \<notin> set (map prof_id (unset_defaults rows))" by (simp add: ids_unset)
  then have "map (\<lambda>r. if prof_id r = pid then apply_updates updates r else r) (unset_defaults rows)
               = unset_defaults rows"
    by (intro map_idI) auto
  moreover from n have "find (\<lambda>r. prof_id r = pid) (unset_defaults rows) = None"
    by (auto simp: find_None_iff)
  moreover from n have "\<not> list_ex (\<lambda>r. prof_id r = pid) (unset_defaults rows)"
    by (auto simp: list_ex_iff)
  ultimately show ?thesis
    using assms(1) by (simp add: updateProfile_def Let_def split: option.splits)
qed

text \<open>
  Claim C8. After a create or an update that carries \<open>isDefault = true\<close>, exactly
  one profile is meant to be the default. That holds when the insert succeeds and
  when the updated id exists (the three lemmas above); but the previous default is
  unset before the second statement runs, so an update of an id that no row has
  leaves the store with no default at all, and so does an insert that is rejected.
\<close>

theorem updateProfile_unknown_id_clears_default:
  "default_count one_default = 1 \<and>
   updateProfile ''missing'' make_default one_default = (Inr None, unset_defaults one_default) \<and>
   default_count (snd (updateProfile ''missing'' make_default one_default)) = 0"
  by code_simp

section \<open>Settings schema: bounds without clamping\<close>

lemma number_field_Inr:
  assumes "number_field input name lo hi d = Inr v" and "lo \<le> d" and "d \<le> hi"
  shows "lo \<le> v \<and> v \<le> hi \<and> v = given input name d"
  using assms
  by (auto simp: number_field_def given_def split: option.splits json.splits if_splits)

lemma number_field_out_of_range:
  "input name = Some (JNum v) \<Longrightarrow> v < lo \<or> hi < v \<Longrightarrow> \<exists>is. number_field input name lo hi d = Inl is"
  by (auto simp: number_field_def)

lemma humanizationSettingsSchema_InrD:
  assumes "humanizationSettingsSchema input = Inr s"
  shows "number_field input ''delayVariation'' 1 100 10 = Inr (delayVariation s)"
    and "number_field input ''typingErrors'' 0 10 1 = Inr (typingErrors s)"
    and "number_field input ''hesitationPauses'' 0 50 5 = Inr (hesitationPauses s)"
    and "number_field input ''timeExtensionFactor'' 1 5 1 = Inr (timeExtensionFactor s)"
    and "number_field input ''minDelay'' 0 100 10 = Inr (minDelay s)"
    and "number_field input ''maxDelay'' 10 1000 100 = Inr (maxDelay s)"
  using assms
  by (auto simp: humanizationSettingsSchema_def Let_def split: sum.splits)

text \<open>
  Claim C9, as the code has it. The schema accepts a settings object only if
  \<open>delayVariation\<close> is in [1,100], \<open>typingErrors\<close> in [0,10],
  \<open>hesitationPauses\<close> in [0,50], \<open>timeExtensionFactor\<close> in [1,5],
  \<open>minDelay\<close> in [0,100] and \<open>maxDelay\<close> in [10,1000]; the accepted settings
  hold the numbers the input gave (or the defaults), so nothing is clamped and an
  out-of-range number is rejected. The two delays are checked each on its own.
\<close>

theorem humanizationSettingsSchema_accepts_in_range_only:
  assumes "humanizationSettingsSchema input = Inr s"
  shows "1 \<le> delayVariation s \<and> delayVariation s \<le> 100 \<and>
         0 \<le> typingErrors s \<and> typingErrors s \<le> 10 \<and>
         0 \<le> hesitationPauses s \<and> hesitationPauses s \<le> 50 \<and>
         1 \<le> timeExtensionFactor s \<and> timeExtensionFactor s \<le> 5 \<and>
         0 \<le> minDelay s \<and> minDelay s \<le> 100 \<and>
         10 \<le> maxDelay s \<and> maxDelay s \<le> 1000 \<and>
         delayVariation s = given input ''delayVariation'' 10 \<and>
         typingErrors s = given input ''typingErrors'' 1 \<and>
         hesitationPauses s = given input ''hesitationPauses'' 5 \<and>
         timeExtensionFactor s = given input ''timeExtensionFactor'' 1 \<and>
         minDelay s = given input ''minDelay'' 10 \<and>
         maxDelay s = given input ''maxDelay'' 100"
proof -
  note d = humanizationSettingsSchema_InrD [OF assms]
  have "1 \<le> delayVariation s \<and> delayVariation s \<le> 100 \<and>
        delayVariation s = given input ''delayVariation'' 10"
    by (rule number_field_Inr [OF d(1)]) simp_all
  moreover have "0 \<le> typingErrors s \<and> typingErrors s \<le> 10 \<and>
        typingErrors s = given input ''typingErrors'' 1"
    by (rule number_field_Inr [OF d(2)]) simp_all
  moreover have "0 \<le> hesitationPauses s \<and> hesitationPauses s \<le> 50 \<and>
        hesitationPauses s = given input ''hesitationPauses'' 5"
    by (rule number_field_Inr [OF d(3)]) simp_all
  moreover have "1 \<le> timeExtensionFactor s \<and> timeExtensionFactor s \<le> 5 \<and>
        timeExtensionFactor s = given input ''timeExtensionFactor'' 1"
    by (rule number_field_Inr [OF d(4)]) simp_all
  moreover have "0 \<le> minDelay s \<and> minDelay s \<le> 100 \<and>
        minDelay s = given input ''minDelay'' 10"
    by (rule number_field_Inr [OF d(5)]) simp_all
  moreover have "10 \<le> maxDelay s \<and> maxDelay s \<le> 1000 \<and>
        maxDelay s = given input ''maxDelay'' 100"
    by (rule number_field_Inr [OF d(6)]) simp_all
  ultimately show ?thesis by blast
qed

text \<open>
  A body with \<open>minDelay = 50\<close> and \<open>maxDelay = 20\<close> is accepted as it is: the
  schema has no check that relates the two.
\<close>

theorem humanizationSettingsSchema_inverted_delays_counterexample:
  "map_sum id (\<lambda>s. (minDelay s, maxDelay s)) (humanizationSettingsSchema inverted_delays) =
     Inr (50, 20) \<and> \<not> (50 :: real) \<le> 20"
  by (simp add: humanizationSettingsSchema_def inverted_delays_def number_field_def
        boolean_field_def string_field_def strings_field_def)

theorem humanizationSettingsSchema_accepts_in_range_only_witness:
  "humanizationSettingsSchema slow_typist =
     Inr \<lparr>delayVariation = 50, typingErrors = 8, hesitationPauses = 5,
          preserveStructure = True, excludedKeys = None, removeMouseOnUpload = True,
          timeExtensionFactor = 1, minDelay = 10, maxDelay = 100, requiredImageId = None\<rparr> \<and>
   given slow_typist ''delayVariation'' 10 = 50 \<and>
   humanizationSettingsSchema (slow_typist(''delayVariation'' \<mapsto> JNum 101)) =
     Inl [too_big ''delayVariation'']"
proof -
  have v: "humanizationSettingsSchema slow_typist =
     Inr \<lparr>delayVariation = 50, typingErrors = 8, hesitationPauses = 5,
          preserveStructure = True, excludedKeys = None, removeMouseOnUpload = True,
          timeExtensionFactor = 1, minDelay = 10, maxDelay = 100, requiredImageId = None\<rparr>"
    by (simp add: humanizationSettingsSchema_def slow_typist_def number_field_def
        boolean_field_def string_field_def strings_field_def)
  have g: "given slow_typist ''delayVariation'' 10 = 50"
    by (simp add: given_def slow_typist_def)
  have r: "humanizationSettingsSchema (slow_typist(''delayVariation'' \<mapsto> JNum 101)) =
             Inl [too_big ''delayVariation'']"
    by (simp add: humanizationSettingsSchema_def slow_typist_def number_field_def
        boolean_field_def string_field_def strings_field_def issues_def)
  from humanizationSettingsSchema_accepts_in_range_only [OF v] v g r show ?thesis by simp
qed

section \<open>Cache: failing open\<close>

lemma guarded_get_never_raises: "\<exists>v. guarded_get B cs key = Inr v"
  by (auto simp: guarded_get_def split: option.splits sum.splits)

lemma guarded_set_never_raises: "\<exists>cs'. guarded_set B cs key v = Inr cs'"
  by (auto simp: guarded_set_def split: option.splits sum.splits)

lemma guarded_get_miss: "unavailable B cs \<Longrightarrow> guarded_get B cs key = Inr None"
  by (auto simp: guarded_get_def unavailable_def split: option.splits sum.splits)

lemma guarded_set_noop: "unavailable B cs \<Longrightarrow> guarded_set B cs key v = Inr cs"
  by (auto simp: guarded_set_def unavailable_def split: option.splits sum.splits)

lemma readers_miss:
  assumes "unavailable B cs"
  shows "getCachedCommands B cs fileHash = Inr None"
    and "getCachedPatternAnalysis B cs fileHashes = Inr None"
    and "getCachedImageAnalysis B cs imageId = Inr None"
  using assms
  by (simp_all add: getCachedCommands_def getCachedPatternAnalysis_def getCachedImageAnalysis_def
        guarded_get_miss)

lemma writers_noop:
  assumes "unavailable B cs"
  shows "cacheCommands B cs fileHash v = Inr cs"
    and "cachePatternAnalysis B cs fileHashes v = Inr cs"
    and "cacheImageAnalysis B cs imageId v = Inr cs"
  using assms
  by (simp_all add: cacheCommands_def cachePatternAnalysis_def cacheImageAnalysis_def
        guarded_set_noop)

lemma counters_zero:
  assumes "unavailable B cs"
  shows "incrementPatternUsage B cs patternId = Inr (0, cs)"
    and "getPatternUsageCount B cs patternId = Inr 0"
  using assms
  by (auto simp: incrementPatternUsage_def getPatternUsageCount_def unavailable_def
        split: option.splits sum.splits)

lemma counters_never_raise:
  "\<exists>n cs'. incrementPatternUsage B cs patternId = Inr (n, cs')"
  "\<exists>n. getPatternUsageCount B cs patternId = Inr n"
  by (auto simp: incrementPatternUsage_def getPatternUsageCount_def
        split: option.splits sum.splits)

lemma unguarded_rejected:
  assumes "redis cs = Some r"
  shows "redis_flushdb B r = Inl e \<Longrightarrow> clearAllCache B cs = Inl e"
    and "redis_keys B r (''mcr:*:'' @ fileHash @ ''*'') = Inl e \<Longrightarrow> invalidateFileCache B cs fileHash = Inl e"
  using assms by (simp_all add: clearAllCache_def invalidateFileCache_def)

text \<open>
  Claim C2. Every cache operation is meant to degrade to a miss or a no-op, and never
  to raise, when the backend is unavailable. The readers, the writers and the usage
  counters do (the lemmas above). \<open>clearAllCache\<close> and \<open>invalidateFileCache\<close>
  do not: in the state a failed connect leaves behind (\<open>redis\<close> is \<open>null\<close>,
  caching disabled) both raise a \<open>TypeError\<close>, whatever the backend is.
\<close>

theorem unguarded_operations_raise_without_backend:
  "clearAllCache B \<lparr>redis = None, enabled = False\<rparr> = Inl TypeError \<and>
   invalidateFileCache B \<lparr>redis = None, enabled = False\<rparr> fileHash = Inl TypeError"
  by (simp add: clearAllCache_def invalidateFileCache_def)

end
